theory Spec2Isabelle
  imports Complex_Main "HOL-Library.Log_Nat"
begin

section \<open>Values of the host language\<close>

text \<open>
  The route handler (\<open>src/unnamed/part_000\<close>) and the page (\<open>src/app/page.tsx\<close>) are
  TypeScript. Strings are modelled as \<^typ>\<open>string\<close>, holding the UTF-8 bytes of the text:
  a character (a code point) is a run of one to four bytes, and the characters of the
  program's own literals that are outside ASCII are written as their bytes. A string of
  the language with an unpaired surrogate has no such form and is outside the model.

  A number is an IEEE double: not-a-number, the two infinities, or a finite value, held
  as the rational it denotes. The sign of zero is not tracked.
\<close>

datatype jsnum = NaN | PInf | NInf | Fin rat

text \<open>A parsed JSON document. An object is the list of its own properties.\<close>

datatype json =
    JNull
  | JBool bool
  | JNum jsnum
  | JStr string
  | JArr "json list"
  | JObj "(string \<times> json) list"

text \<open>
  Four built-ins of the language are taken as parameters, since the program only calls
  them: \<open>Number::toString\<close> (radix 10), \<open>StringToNumber\<close>, \<open>JSON.stringify\<close>, and the
  upper-case mapping of the Unicode character database, which gives for one character
  outside ASCII the character or characters that replace it, whatever its neighbours.
\<close>

record platform =
  numToString :: "jsnum \<Rightarrow> string"
  stringToNumber :: "string \<Rightarrow> jsnum"
  jsonStringify :: "json \<Rightarrow> string"
  uppercaseMapping :: "string \<Rightarrow> string"

subsection \<open>String built-ins\<close>

text \<open>
  The characters of a string. The first byte of a character tells how many bytes it has:
  one below \<open>0xC0\<close>, two below \<open>0xE0\<close>, three below \<open>0xF0\<close>, four from there on.
\<close>

definition charLength :: "char \<Rightarrow> nat" where
  "charLength c =
     (if of_char c < (0xC0::nat) then 1
      else if of_char c < (0xE0::nat) then 2
      else if of_char c < (0xF0::nat) then 3
      else 4)"

function chars :: "string \<Rightarrow> string list" where
  "chars [] = []"
| "chars (c # s) = (c # take (charLength c - 1) s) # chars (drop (charLength c - 1) s)"
  by pat_completeness auto

termination
  by (relation "measure length") auto

text \<open>
  \<open>s.trim()\<close> removes from both ends the white space and the line terminators of the
  language: U+0009 to U+000D, U+0020, U+00A0, U+1680, U+2000 to U+200A, U+2028, U+2029,
  U+202F, U+205F, U+3000 and U+FEFF.
\<close>

definition whiteSpace :: "string list" where
  "whiteSpace =
    [[CHR 0x09], [CHR 0x0A], [CHR 0x0B], [CHR 0x0C], [CHR 0x0D], [CHR 0x20],
     [CHR 0xC2, CHR 0xA0], [CHR 0xE1, CHR 0x9A, CHR 0x80], [CHR 0xE2, CHR 0x80, CHR 0x80],
     [CHR 0xE2, CHR 0x80, CHR 0x81], [CHR 0xE2, CHR 0x80, CHR 0x82],
     [CHR 0xE2, CHR 0x80, CHR 0x83], [CHR 0xE2, CHR 0x80, CHR 0x84],
     [CHR 0xE2, CHR 0x80, CHR 0x85], [CHR 0xE2, CHR 0x80, CHR 0x86],
     [CHR 0xE2, CHR 0x80, CHR 0x87], [CHR 0xE2, CHR 0x80, CHR 0x88],
     [CHR 0xE2, CHR 0x80, CHR 0x89], [CHR 0xE2, CHR 0x80, CHR 0x8A],
     [CHR 0xE2, CHR 0x80, CHR 0xA8], [CHR 0xE2, CHR 0x80, CHR 0xA9],
     [CHR 0xE2, CHR 0x80, CHR 0xAF], [CHR 0xE2, CHR 0x81, CHR 0x9F],
     [CHR 0xE3, CHR 0x80, CHR 0x80], [CHR 0xEF, CHR 0xBB, CHR 0xBF]]"

definition isWhiteSpace :: "string \<Rightarrow> bool" where
  "isWhiteSpace t \<longleftrightarrow> t \<in> set whiteSpace"

definition strip :: "string list \<Rightarrow> string list" where
  "strip cs = rev (dropWhile isWhiteSpace (rev (dropWhile isWhiteSpace cs)))"

definition trim :: "string \<Rightarrow> string" where
  "trim s = concat (strip (chars s))"

definition isUpper :: "char \<Rightarrow> bool" where
  "isUpper c \<longleftrightarrow> (65::nat) \<le> of_char c \<and> of_char c \<le> (90::nat)"

definition isLower :: "char \<Rightarrow> bool" where
  "isLower c \<longleftrightarrow> (97::nat) \<le> of_char c \<and> of_char c \<le> (122::nat)"

definition upperChar :: "char \<Rightarrow> char" where
  "upperChar c = (if isLower c then char_of (of_char c - (32::nat)) else c)"

definition lowerChar :: "char \<Rightarrow> char" where
  "lowerChar c = (if isUpper c then char_of (of_char c + (32::nat)) else c)"

text \<open>
  \<open>s.toUpperCase()\<close> replaces every character by its upper case: an ASCII letter by the
  letter 32 below, any other ASCII character by itself, and a character outside ASCII by
  what the Unicode mapping gives.
\<close>

definition upperOf :: "platform \<Rightarrow> string \<Rightarrow> string" where
  "upperOf P t = (case t of [c] \<Rightarrow> [upperChar c] | _ \<Rightarrow> uppercaseMapping P t)"

definition toUpperCase :: "platform \<Rightarrow> string \<Rightarrow> string" where
  "toUpperCase P s = concat (map (upperOf P) (chars s))"

text \<open>
  \<open>s.toLowerCase()\<close> is called on carrier names only, and only to look in the result for
  one of \<open>dhl\<close>, \<open>fedex\<close>, \<open>japan post\<close>, \<open>japanpost\<close> and \<open>japan\<close>. The lower case of a
  character outside ASCII has bytes outside ASCII only, but for U+0130 and U+212A, which
  give \<open>i\<close> (followed by U+0307) and \<open>k\<close>; neither letter occurs in the five names. So an
  occurrence of a name lies within the lower case of the ASCII characters of the string,
  and the mapping is given on these: an upper-case ASCII letter becomes the letter 32
  above. The bytes of the other characters are kept, which leaves the outcome of the
  five searches as it is.
\<close>

definition toLowerCase :: "string \<Rightarrow> string" where
  "toLowerCase s = map lowerChar s"

text \<open>\<open>xs.join(sep)\<close> on an array of strings.\<close>

fun join :: "string \<Rightarrow> string list \<Rightarrow> string" where
  "join sep [] = []"
| "join sep [x] = x"
| "join sep (x # y # ys) = x @ sep @ join sep (y # ys)"

text \<open>\<open>s.includes(t)\<close>: \<open>t\<close> occurs in \<open>s\<close> as a contiguous run.\<close>

fun startsWith :: "string \<Rightarrow> string \<Rightarrow> bool" where
  "startsWith s [] = True"
| "startsWith [] (c # t) = False"
| "startsWith (d # s) (c # t) = (d = c \<and> startsWith s t)"

fun str_includes :: "string \<Rightarrow> string \<Rightarrow> bool" where
  "str_includes [] t = (t = [])"
| "str_includes (c # s) t = (startsWith (c # s) t \<or> str_includes s t)"

subsection \<open>Property access and coercions\<close>

text \<open>
  \<open>x?.k\<close>, and \<open>x.k\<close> where \<open>x\<close> is known not to be \<open>null\<close>: the own property of an
  object, \<open>undefined\<close> (here \<open>None\<close>) otherwise. None of the property names the program
  reads is defined on a prototype, so a string, a number, a boolean and an array answer
  \<open>undefined\<close>.
\<close>

fun get :: "json \<Rightarrow> string \<Rightarrow> json option" where
  "get (JObj kvs) k = map_of kvs k"
| "get v k = None"

definition optGet :: "json option \<Rightarrow> string \<Rightarrow> json option" where
  "optGet x k = (case x of None \<Rightarrow> None | Some v \<Rightarrow> get v k)"

text \<open>\<open>a ?? b\<close>: \<open>b\<close> when \<open>a\<close> is \<open>undefined\<close> or \<open>null\<close>.\<close>

definition nullishOr :: "json option \<Rightarrow> json \<Rightarrow> json" where
  "nullishOr a b = (case a of None \<Rightarrow> b | Some JNull \<Rightarrow> b | Some v \<Rightarrow> v)"

text \<open>Truthiness, as tested by \<open>!x\<close>, \<open>x ? a : b\<close> and \<open>x || y\<close>.\<close>

definition truthyNum :: "jsnum \<Rightarrow> bool" where
  "truthyNum n \<longleftrightarrow> n \<noteq> NaN \<and> n \<noteq> Fin 0"

fun truthy :: "json \<Rightarrow> bool" where
  "truthy JNull = False"
| "truthy (JBool b) = b"
| "truthy (JNum n) = truthyNum n"
| "truthy (JStr s) = (s \<noteq> [])"
| "truthy (JArr xs) = True"
| "truthy (JObj kvs) = True"

definition isFinite :: "jsnum \<Rightarrow> bool" where
  "isFinite n = (case n of Fin r \<Rightarrow> True | _ \<Rightarrow> False)"

text \<open>
  An exception that leaves a function: the \<open>TypeError\<close> of a failed conversion to a
  primitive value, and the rejection of an outbound \<open>fetch\<close>.
\<close>

datatype exn = TypeError | FetchRejected

definition bind :: "exn + 'a \<Rightarrow> ('a \<Rightarrow> exn + 'b) \<Rightarrow> exn + 'b" where
  "bind m f = (case m of Inl e \<Rightarrow> Inl e | Inr x \<Rightarrow> f x)"

fun mapM :: "('a \<Rightarrow> exn + 'b) \<Rightarrow> 'a list \<Rightarrow> exn + 'b list" where
  "mapM f [] = Inr []"
| "mapM f (x # xs) = bind (f x) (\<lambda>y. bind (mapM f xs) (\<lambda>ys. Inr (y # ys)))"

fun filterM :: "('a \<Rightarrow> exn + bool) \<Rightarrow> 'a list \<Rightarrow> exn + 'a list" where
  "filterM f [] = Inr []"
| "filterM f (x # xs) =
     bind (f x) (\<lambda>keep. bind (filterM f xs) (\<lambda>ys. Inr (if keep then x # ys else ys)))"

text \<open>
  \<open>String(v)\<close> and a template literal's \<open>${v}\<close>. An object is converted by
  \<open>OrdinaryToPrimitive\<close>: \<open>toString\<close> is looked up first, and a parsed object whose own
  property of that name shadows \<open>Object.prototype.toString\<close> holds a value that is not
  callable; \<open>valueOf\<close> then yields the object itself (or is shadowed as well), no
  primitive is found and a \<open>TypeError\<close> is thrown. An array is joined with commas, a
  \<open>null\<close> element giving the empty string.
\<close>

fun ToString :: "platform \<Rightarrow> json \<Rightarrow> exn + string"
  and arrayJoin :: "platform \<Rightarrow> json list \<Rightarrow> exn + string" where
  "ToString P JNull = Inr ''null''"
| "ToString P (JBool b) = Inr (if b then ''true'' else ''false'')"
| "ToString P (JNum n) = Inr (numToString P n)"
| "ToString P (JStr s) = Inr s"
| "ToString P (JArr xs) = arrayJoin P xs"
| "ToString P (JObj kvs) =
     (if map_of kvs ''toString'' = None then Inr ''[object Object]'' else Inl TypeError)"
| "arrayJoin P [] = Inr []"
| "arrayJoin P (x # xs) =
     bind (if x = JNull then Inr [] else ToString P x) (\<lambda>s.
       if xs = [] then Inr s else bind (arrayJoin P xs) (\<lambda>t. Inr (s @ '','' @ t)))"

definition ToStringOpt :: "platform \<Rightarrow> json option \<Rightarrow> exn + string" where
  "ToStringOpt P x = (case x of None \<Rightarrow> Inr ''undefined'' | Some v \<Rightarrow> ToString P v)"

text \<open>
  \<open>Number(v)\<close>. An object is converted with the hint \<open>number\<close>: \<open>valueOf\<close> gives no
  primitive, then \<open>toString\<close> as above, and the text \<open>[object Object]\<close> is not a
  numeric literal.
\<close>

fun ToNumber :: "platform \<Rightarrow> json \<Rightarrow> exn + jsnum" where
  "ToNumber P JNull = Inr (Fin 0)"
| "ToNumber P (JBool b) = Inr (Fin (if b then 1 else 0))"
| "ToNumber P (JNum n) = Inr n"
| "ToNumber P (JStr s) = Inr (stringToNumber P s)"
| "ToNumber P (JArr xs) = bind (arrayJoin P xs) (\<lambda>s. Inr (stringToNumber P s))"
| "ToNumber P (JObj kvs) =
     (if map_of kvs ''toString'' = None then Inr NaN else Inl TypeError)"

definition ToNumberOpt :: "platform \<Rightarrow> json option \<Rightarrow> exn + jsnum" where
  "ToNumberOpt P x = (case x of None \<Rightarrow> Inr NaN | Some v \<Rightarrow> ToNumber P v)"

section \<open>The rates route\<close>

subsection \<open>Data\<close>

record RateSummary =
  carrier :: string
  service :: string
  price :: jsnum
  currency :: string
  estimated_delivery_dates :: json
  carrier_id :: json

record RatesResult =
  rates :: "RateSummary list"
  errors :: "string list"

text \<open>
  The field \<open>value\<close> of a cache entry is \<open>cvalue\<close> here. Times are the integers of
  \<open>Date.now()\<close>, in milliseconds.
\<close>

record CacheEntry =
  expiresAt :: int
  cvalue :: RatesResult

definition CACHE_TTL_MS :: int where
  "CACHE_TTL_MS = 60000"

type_synonym rateCache = "string \<rightharpoonup> CacheEntry"

definition JAPAN_POST_SERVICES :: "string list" where
  "JAPAN_POST_SERVICES =
     [''japanpost_ems'', ''japanpost_epacket_light'', ''japanpost_smallpacket_air'']"

subsection \<open>The cache key\<close>

text \<open>
  \<open>buildCacheKey\<close> joins the destination, the four numbers (each through
  \<open>Number::toString\<close>, as \<open>Array.prototype.join\<close> does) and the trimmed, upper-cased
  postal code with a colon.
\<close>

definition buildCacheKey ::
  "platform \<Rightarrow> string \<Rightarrow> jsnum \<Rightarrow> jsnum \<Rightarrow> jsnum \<Rightarrow> jsnum \<Rightarrow> string \<Rightarrow> string" where
  "buildCacheKey P destination weight width height depth postal =
     join '':''
       [destination,
        numToString P weight,
        numToString P width,
        numToString P height,
        numToString P depth,
        toUpperCase P (trim postal)]"


subsection \<open>The cache store\<close>

text \<open>\<open>pruneCache\<close> deletes every entry whose expiry is not after \<open>now\<close>.\<close>

definition pruneCache :: "int \<Rightarrow> rateCache \<Rightarrow> rateCache" where
  "pruneCache now c =
     (\<lambda>key. case c key of
               None \<Rightarrow> None
             | Some entry \<Rightarrow> if expiresAt entry \<le> now then None else Some entry)"

subsection \<open>The rate fetcher\<close>

text \<open>
  What the outbound \<open>fetch\<close> does: it rejects, or it resolves to a response with a
  status and a body, the body being \<open>None\<close> when \<open>response.json()\<close> rejects (which the
  program turns into \<open>null\<close>).
\<close>

datatype fetchOutcome = Rejected | Response nat "json option"

text \<open>The two shapes \<open>fetchRates\<close> returns: \<open>{ok: false, status, message}\<close> and \<open>{ok: true, data}\<close>.\<close>

text \<open>
  The messages of the program are Japanese text. Each is given by the UTF-8 bytes of its
  literal in the source: lines 63, 90, 161, 210 to 212, 225 and 242 of the route, and
  line 153 of the page.
\<close>

datatype apiResult = Failure nat json | Success json

definition response_ok :: "nat \<Rightarrow> bool" where
  "response_ok status \<longleftrightarrow> 200 \<le> status \<and> status \<le> 299"

definition missingKeyMessage :: string where
  "missingKeyMessage = ''SHIPANDCO_API_KEY '' @ [CHR 0xE3, CHR 0x81, CHR 0x8C, CHR 0xE8, CHR 0xA8, CHR 0xAD, CHR 0xE5, CHR 0xAE, CHR 0x9A, CHR 0xE3, CHR 0x81, CHR 0x95, CHR 0xE3, CHR 0x82, CHR 0x8C, CHR 0xE3, CHR 0x81, CHR 0xA6, CHR 0xE3, CHR 0x81, CHR 0x84, CHR 0xE3, CHR 0x81, CHR 0xBE, CHR 0xE3, CHR 0x81, CHR 0x9B, CHR 0xE3, CHR 0x82, CHR 0x93, CHR 0xE3, CHR 0x80, CHR 0x82]"

definition callFailedMessage :: string where
  "callFailedMessage = ''Ship&Co API '' @ [CHR 0xE3, CHR 0x81, CHR 0xAE, CHR 0xE5, CHR 0x91, CHR 0xBC, CHR 0xE3, CHR 0x81, CHR 0xB3, CHR 0xE5, CHR 0x87, CHR 0xBA, CHR 0xE3, CHR 0x81, CHR 0x97, CHR 0xE3, CHR 0x81, CHR 0xAB, CHR 0xE5, CHR 0xA4, CHR 0xB1, CHR 0xE6, CHR 0x95, CHR 0x97, CHR 0xE3, CHR 0x81, CHR 0x97, CHR 0xE3, CHR 0x81, CHR 0xBE, CHR 0xE3, CHR 0x81, CHR 0x97, CHR 0xE3, CHR 0x81, CHR 0x9F, CHR 0xE3, CHR 0x80, CHR 0x82]"

text \<open>
  \<open>fetchRates\<close>. \<open>apiKey\<close> is \<open>process.env.SHIPANDCO_API_KEY\<close> (\<open>None\<close> when unset; the
  empty string is falsy too), \<open>net\<close> answers the request that is sent.
\<close>

definition fetchRates ::
  "string option \<Rightarrow> (json \<Rightarrow> fetchOutcome) \<Rightarrow> json \<Rightarrow> exn + apiResult" where
  "fetchRates apiKey net requestBody =
     (if apiKey = None \<or> apiKey = Some [] then Inr (Failure 500 (JStr missingKeyMessage))
      else case net requestBody of
             Rejected \<Rightarrow> Inl FetchRejected
           | Response status body \<Rightarrow>
               (let data = (case body of None \<Rightarrow> JNull | Some d \<Rightarrow> d) in
                if \<not> response_ok status then
                  Inr (Failure status
                        (nullishOr (get data ''message'')
                           (nullishOr (get data ''error'') (JStr callFailedMessage))))
                else Inr (Success data)))"

subsection \<open>Filter, normalisation and gap-fill\<close>

text \<open>The callback of \<open>rawRates.filter\<close>.\<close>

definition allowed :: "platform \<Rightarrow> json \<Rightarrow> exn + bool" where
  "allowed P rate =
     bind (ToString P (nullishOr (get rate ''carrier'') (JStr []))) (\<lambda>c.
       let carrier = toLowerCase c in
       if str_includes carrier ''dhl'' then Inr True
       else if str_includes carrier ''fedex'' then Inr True
       else if str_includes carrier ''japan post'' \<or> str_includes carrier ''japanpost'' then
         bind (ToStringOpt P (get rate ''service'')) (\<lambda>s. Inr (s \<in> set JAPAN_POST_SERVICES))
       else Inr False)"

text \<open>The callback of \<open>filteredRates.map\<close>; the fields are evaluated in the order written.\<close>

definition normalize :: "platform \<Rightarrow> json \<Rightarrow> exn + RateSummary" where
  "normalize P rate =
     bind (ToString P (nullishOr (get rate ''carrier'') (JStr []))) (\<lambda>c.
     bind (ToString P (nullishOr (get rate ''service'') (JStr []))) (\<lambda>s.
     bind (ToNumber P (nullishOr (get rate ''price'') (JNum (Fin 0)))) (\<lambda>p.
     bind (ToString P (nullishOr (get rate ''currency'') (JStr []))) (\<lambda>cu.
       Inr \<lparr>carrier = c, service = s, price = p, currency = cu,
            estimated_delivery_dates = nullishOr (get rate ''estimated_delivery_dates'') JNull,
            carrier_id = nullishOr (get rate ''carrier_id'') JNull\<rparr>))))"

text \<open>
  The API-reported errors: every raw quote whose \<open>errors\<close> is an array contributes each
  entry's \<open>message\<close> when that is truthy, and \<open>JSON.stringify(entry)\<close> otherwise.
\<close>

definition entryText :: "platform \<Rightarrow> json \<Rightarrow> exn + string" where
  "entryText P entry =
     (case get entry ''message'' of
        None \<Rightarrow> Inr (jsonStringify P entry)
      | Some m \<Rightarrow> if truthy m then ToString P m else Inr (jsonStringify P entry))"

fun apiErrors :: "platform \<Rightarrow> json list \<Rightarrow> exn + string list" where
  "apiErrors P [] = Inr []"
| "apiErrors P (rate # rs) =
     (case get rate ''errors'' of
        Some (JArr es) \<Rightarrow>
          bind (mapM (entryText P) es) (\<lambda>ms. bind (apiErrors P rs) (\<lambda>rest. Inr (ms @ rest)))
      | _ \<Rightarrow> apiErrors P rs)"

definition serviceLabel :: "string \<Rightarrow> string" where
  "serviceLabel s =
     (if s = ''japanpost_ems'' then ''EMS''
      else if s = ''japanpost_epacket_light'' then
        ''e'' @ [CHR 0xE3, CHR 0x83, CHR 0x91, CHR 0xE3, CHR 0x82, CHR 0xB1, CHR 0xE3, CHR 0x83, CHR 0x83, CHR 0xE3, CHR 0x83, CHR 0x88, CHR 0xE3, CHR 0x83, CHR 0xA9, CHR 0xE3, CHR 0x82, CHR 0xA4, CHR 0xE3, CHR 0x83, CHR 0x88]
      else [CHR 0xE5, CHR 0xB0, CHR 0x8F, CHR 0xE5, CHR 0x9E, CHR 0x8B, CHR 0xE5, CHR 0x8C, CHR 0x85, CHR 0xE8, CHR 0xA3, CHR 0x85, CHR 0xE7, CHR 0x89, CHR 0xA9, CHR 0xEF, CHR 0xBC, CHR 0x88, CHR 0xE8, CHR 0x88, CHR 0xAA, CHR 0xE7, CHR 0xA9, CHR 0xBA, CHR 0xEF, CHR 0xBC, CHR 0x89])"

definition missingServiceMessage :: "string \<Rightarrow> string" where
  "missingServiceMessage s =
     serviceLabel s @ [CHR 0xEF, CHR 0xBC, CHR 0x9A, CHR 0xE9, CHR 0x9D, CHR 0x9E, CHR 0xE5, CHR 0xAF, CHR 0xBE, CHR 0xE5, CHR 0xBF, CHR 0x9C] @ ''/'' @ [CHR 0xE5, CHR 0x8F, CHR 0x96, CHR 0xE5, CHR 0xBE, CHR 0x97, CHR 0xE5, CHR 0xA4, CHR 0xB1, CHR 0xE6, CHR 0x95, CHR 0x97]"

definition japanPostServices :: "RateSummary list \<Rightarrow> string list" where
  "japanPostServices rs =
     map service (filter (\<lambda>rate. str_includes (toLowerCase (carrier rate)) ''japan'') rs)"

text \<open>The loop over \<open>JAPAN_POST_SERVICES\<close>, pushing onto \<open>errors\<close>.\<close>

fun gapFill :: "string list \<Rightarrow> string list \<Rightarrow> string list \<Rightarrow> string list" where
  "gapFill [] present errs = errs"
| "gapFill (s # ss) present errs =
     gapFill ss present (if s \<notin> set present then errs @ [missingServiceMessage s] else errs)"

definition rawRates :: "json \<Rightarrow> json list" where
  "rawRates data =
     (case data of
        JArr xs \<Rightarrow> xs
      | _ \<Rightarrow> (case get data ''rates'' of Some (JArr ys) \<Rightarrow> ys | _ \<Rightarrow> []))"

text \<open>Lines 166 to 216 of the route: from the payload of a successful call to the result.\<close>

definition annotate :: "platform \<Rightarrow> json \<Rightarrow> exn + RatesResult" where
  "annotate P data =
     (let raw = rawRates data in
      bind (filterM (allowed P) raw) (\<lambda>filteredRates.
      bind (mapM (normalize P) filteredRates) (\<lambda>rs.
      bind (apiErrors P raw) (\<lambda>apiErrs.
        Inr \<lparr>rates = rs,
             errors = gapFill JAPAN_POST_SERVICES (japanPostServices rs) apiErrs\<rparr>))))"

subsection \<open>The per-destination lookup\<close>

record params =
  country :: string
  postal :: string
  weight :: jsnum
  width :: jsnum
  height :: jsnum
  depth :: jsnum

definition requestBody :: "params \<Rightarrow> json" where
  "requestBody p =
     JObj [
       (''setup'', JObj [(''currency'', JStr ''JPY'')]),
       (''from_address'', JObj [
          (''country'', JStr ''JP''),
          (''zip'', JStr ''0600000''),
          (''province'', JStr ''Hokkaido''),
          (''city'', JStr ''Sapporo''),
          (''address1'', JStr ''Test''),
          (''phone'', JStr ''0000000000''),
          (''full_name'', JStr ''Sender'')]),
       (''to_address'', JObj [
          (''country'', JStr (country p)),
          (''zip'', JStr (postal p)),
          (''city'', JStr ''Test City''),
          (''address1'', JStr ''Test Address''),
          (''phone'', JStr ''0000000000''),
          (''full_name'', JStr ''Receiver'')]),
       (''products'', JArr [JObj [
          (''name'', JStr ''Sample Item''),
          (''quantity'', JNum (Fin 1)),
          (''price'', JNum (Fin 3000)),
          (''origin_country'', JStr ''JP'')]]),
       (''parcels'', JArr [JObj [
          (''weight'', JNum (weight p)),
          (''amount'', JNum (Fin 1)),
          (''width'', JNum (width p)),
          (''height'', JNum (height p)),
          (''depth'', JNum (depth p))]]),
       (''customs'', JObj [(''content_type'', JStr ''MERCHANDISE'')])]"

text \<open>
  The state of the process: the module-level \<open>rateCache\<close>, and, as a record of what was
  done, the request bodies handed to \<open>fetchRates\<close> so far.
\<close>

record world =
  cache :: rateCache
  fetchLog :: "json list"

definition keyOf :: "platform \<Rightarrow> params \<Rightarrow> string" where
  "keyOf P p = buildCacheKey P (country p) (weight p) (width p) (height p) (depth p) (postal p)"

text \<open>
  Lines 107 to 113: the part of the lookup that runs before the first \<open>await\<close>. The
  cache is pruned, and the entry under the key, if one is left, is the answer.
\<close>

definition cacheLookup :: "platform \<Rightarrow> int \<Rightarrow> params \<Rightarrow> rateCache \<Rightarrow> RatesResult option \<times> rateCache" where
  "cacheLookup P now p c =
     (let key = keyOf P p;
          c' = pruneCache now c
      in (case c' key of
            None \<Rightarrow> None
          | Some cached \<Rightarrow> if expiresAt cached > now then Some (cvalue cached) else None,
          c'))"

definition failureText :: "string \<Rightarrow> string \<Rightarrow> string \<Rightarrow> string" where
  "failureText c status message =
     ''Ship&Co API '' @ [CHR 0xE5, CHR 0xA4, CHR 0xB1, CHR 0xE6, CHR 0x95, CHR 0x97] @ '' ('' @
     c @ ''): '' @ status @ '' '' @ message"

text \<open>
  Lines 115 to 218: the part after a miss. It yields the result together with the cache
  entry written at line 217, if that line is reached.
\<close>

definition afterMiss ::
  "platform \<Rightarrow> string option \<Rightarrow> (json \<Rightarrow> fetchOutcome) \<Rightarrow> int \<Rightarrow> params
     \<Rightarrow> exn + (RatesResult \<times> CacheEntry option)" where
  "afterMiss P apiKey net now p =
     bind (fetchRates apiKey net (requestBody p)) (\<lambda>apiResult.
       case apiResult of
         Failure status message \<Rightarrow>
           bind (ToString P message) (\<lambda>m.
             Inr (\<lparr>rates = [],
                   errors = [failureText (country p) (numToString P (Fin (of_nat status))) m]\<rparr>,
                  None))
       | Success data \<Rightarrow>
           bind (annotate P data) (\<lambda>result.
             Inr (result, Some \<lparr>expiresAt = now + CACHE_TTL_MS, cvalue = result\<rparr>)))"

definition store :: "string \<Rightarrow> CacheEntry option \<Rightarrow> rateCache \<Rightarrow> rateCache" where
  "store key entry c = (case entry of None \<Rightarrow> c | Some e \<Rightarrow> c(key \<mapsto> e))"

text \<open>
  One lookup taken alone, from the call to the settling of its promise: \<open>now\<close> is the
  reading of the clock, and nothing else touches the cache in between.
\<close>

definition getRatesForDestination ::
  "platform \<Rightarrow> string option \<Rightarrow> (json \<Rightarrow> fetchOutcome) \<Rightarrow> int \<Rightarrow> params \<Rightarrow> world
     \<Rightarrow> (exn + RatesResult) \<times> world" where
  "getRatesForDestination P apiKey net now p w =
     (case cacheLookup P now p (cache w) of
        (Some cachedValue, c') \<Rightarrow> (Inr cachedValue, w\<lparr>cache := c'\<rparr>)
      | (None, c') \<Rightarrow>
          (let w' = \<lparr>cache = c', fetchLog = fetchLog w @ [requestBody p]\<rparr> in
           case afterMiss P apiKey net now p of
             Inl e \<Rightarrow> (Inl e, w')
           | Inr (result, entry) \<Rightarrow> (Inr result, w'\<lparr>cache := store (keyOf P p) entry c'\<rparr>)))"

subsection \<open>The handler\<close>

datatype response = BadRequest string | Ok RatesResult RatesResult

definition statusOf :: "response \<Rightarrow> nat" where
  "statusOf r = (case r of BadRequest msg \<Rightarrow> 400 | Ok us uk \<Rightarrow> 200)"

definition invalidRequestMessage :: string where
  "invalidRequestMessage = [CHR 0xE3, CHR 0x83, CHR 0xAA, CHR 0xE3, CHR 0x82, CHR 0xAF, CHR 0xE3, CHR 0x82, CHR 0xA8, CHR 0xE3, CHR 0x82, CHR 0xB9, CHR 0xE3, CHR 0x83, CHR 0x88, CHR 0xE3, CHR 0x81, CHR 0x8C, CHR 0xE4, CHR 0xB8, CHR 0x8D, CHR 0xE6, CHR 0xAD, CHR 0xA3, CHR 0xE3, CHR 0x81, CHR 0xA7, CHR 0xE3, CHR 0x81, CHR 0x99, CHR 0xE3, CHR 0x80, CHR 0x82]"

definition invalidSizeMessage :: string where
  "invalidSizeMessage = [CHR 0xE9, CHR 0x87, CHR 0x8D, CHR 0xE9, CHR 0x87, CHR 0x8F, CHR 0xE3, CHR 0x83, CHR 0xBB, CHR 0xE3, CHR 0x82, CHR 0xB5, CHR 0xE3, CHR 0x82, CHR 0xA4, CHR 0xE3, CHR 0x82, CHR 0xBA, CHR 0xE3, CHR 0x81, CHR 0xAE, CHR 0xE5, CHR 0x85, CHR 0xA5, CHR 0xE5, CHR 0x8A, CHR 0x9B, CHR 0xE3, CHR 0x81, CHR 0x8C, CHR 0xE4, CHR 0xB8, CHR 0x8D, CHR 0xE6, CHR 0xAD, CHR 0xA3, CHR 0xE3, CHR 0x81, CHR 0xA7, CHR 0xE3, CHR 0x81, CHR 0x99, CHR 0xE3, CHR 0x80, CHR 0x82]"

text \<open>\<open>String(v ?? d).trim() || d\<close>, for the two postal codes.\<close>

definition postalOr :: "platform \<Rightarrow> json option \<Rightarrow> string \<Rightarrow> exn + string" where
  "postalOr P v d =
     bind (ToString P (nullishOr v (JStr d))) (\<lambda>s. Inr (if trim s = [] then d else trim s))"

text \<open>
  The two lookups of \<open>Promise.all\<close>. Each call runs up to its first \<open>await\<close> when it is
  made, so both cache lookups (at the clock readings \<open>nowUS\<close> and \<open>nowUK\<close>) precede both
  continuations; a continuation only writes the cache. \<open>usFirst\<close> tells which lookup
  settles first: it orders the two writes, and it chooses the rejection that
  \<open>Promise.all\<close> reports when both reject. A rejection of either lookup rejects the
  handler.
\<close>

definition bothDestinations ::
  "platform \<Rightarrow> string option \<Rightarrow> (json \<Rightarrow> fetchOutcome) \<Rightarrow> int \<Rightarrow> int \<Rightarrow> bool
     \<Rightarrow> params \<Rightarrow> params \<Rightarrow> world \<Rightarrow> (exn + response) \<times> world" where
  "bothDestinations P apiKey net nowUS nowUK usFirst us uk w =
     (let (hitUS, c1) = cacheLookup P nowUS us (cache w);
          (hitUK, c2) = cacheLookup P nowUK uk c1;
          sent = (if hitUS = None then [requestBody us] else []) @
                 (if hitUK = None then [requestBody uk] else []);
          rUS = (case hitUS of Some v \<Rightarrow> Inr (v, None) | None \<Rightarrow> afterMiss P apiKey net nowUS us);
          rUK = (case hitUK of Some v \<Rightarrow> Inr (v, None) | None \<Rightarrow> afterMiss P apiKey net nowUK uk);
          wrUS = (case rUS of Inr (v, e) \<Rightarrow> store (keyOf P us) e | Inl x \<Rightarrow> id);
          wrUK = (case rUK of Inr (v, e) \<Rightarrow> store (keyOf P uk) e | Inl x \<Rightarrow> id);
          c3 = (if usFirst then wrUK (wrUS c2) else wrUS (wrUK c2));
          w' = \<lparr>cache = c3, fetchLog = fetchLog w @ sent\<rparr>
      in (case (rUS, rUK) of
            (Inr (usResult, e1), Inr (ukResult, e2)) \<Rightarrow> Inr (Ok usResult ukResult)
          | (Inl x, Inr r) \<Rightarrow> Inl x
          | (Inr r, Inl y) \<Rightarrow> Inl y
          | (Inl x, Inl y) \<Rightarrow> Inl (if usFirst then x else y),
          w'))"

text \<open>
  Lines 230 to 248 of the handler: the four numbers, the finiteness test (\<open>None\<close> is the
  400 response), then the two postal codes.
\<close>

definition parseRequest :: "platform \<Rightarrow> json \<Rightarrow> exn + (params \<times> params) option" where
  "parseRequest P body =
     bind (ToNumberOpt P (get body ''weight'')) (\<lambda>wt.
     bind (ToNumberOpt P (get body ''width'')) (\<lambda>wd.
     bind (ToNumberOpt P (get body ''height'')) (\<lambda>ht.
     bind (ToNumberOpt P (get body ''depth'')) (\<lambda>dp.
       if \<not> isFinite wt \<or> \<not> isFinite wd \<or> \<not> isFinite ht \<or> \<not> isFinite dp
       then Inr None
       else
         bind (postalOr P (get body ''usZip'') ''10001'') (\<lambda>usZip.
         bind (postalOr P (get body ''ukPostcode'') ''SW1A 1AA'') (\<lambda>ukPostcode.
           Inr (Some
             (\<lparr>country = ''US'', postal = usZip,
               weight = wt, width = wd, height = ht, depth = dp\<rparr>,
              \<lparr>country = ''GB'', postal = ukPostcode,
               weight = wt, width = wd, height = ht, depth = dp\<rparr>))))))))"

text \<open>
  \<open>POST\<close>. \<open>request\<close> is the parsed request body, \<open>None\<close> when \<open>request.json()\<close> rejects.
  An exception that leaves the handler is answered by the framework, not by the handler.
\<close>

definition POST ::
  "platform \<Rightarrow> string option \<Rightarrow> (json \<Rightarrow> fetchOutcome) \<Rightarrow> int \<Rightarrow> int \<Rightarrow> bool
     \<Rightarrow> json option \<Rightarrow> world \<Rightarrow> (exn + response) \<times> world" where
  "POST P apiKey net nowUS nowUK usFirst request w =
     (let body = (case request of None \<Rightarrow> JNull | Some b \<Rightarrow> b) in
      if \<not> truthy body then (Inr (BadRequest invalidRequestMessage), w)
      else
        case parseRequest P body of
          Inl e \<Rightarrow> (Inl e, w)
        | Inr None \<Rightarrow> (Inr (BadRequest invalidSizeMessage), w)
        | Inr (Some (us, uk)) \<Rightarrow> bothDestinations P apiKey net nowUS nowUK usFirst us uk w)"

section \<open>The page\<close>

subsection \<open>Arithmetic on doubles\<close>

text \<open>
  An arithmetic operation yields the double nearest to the exact result, a tie going to
  the even significand. \<open>toDouble\<close> rounds a rational so: the unit in the last place is
  \<open>2\<close> to the power \<open>\<lfloor>log\<^sub>2 |x|\<rfloor> - 52\<close>, not below \<open>2\<close> to the power \<open>-1074\<close> (the
  subnormal spacing), and a result that reaches \<open>2\<close> to the power \<open>1024\<close> is an infinity.
\<close>

definition roundHalfEven :: "rat \<Rightarrow> int" where
  "roundHalfEven x =
     (let n = \<lfloor>x\<rfloor>; d = x - of_int n
      in if d < 1 / 2 then n else if 1 / 2 < d then n + 1 else if even n then n else n + 1)"

definition floorLog2 :: "rat \<Rightarrow> int" where
  "floorLog2 x =
     (let (p, q) = quotient_of x; d = bitlen p - bitlen q
      in if 2 powi d \<le> x then d else d - 1)"

definition toDouble :: "rat \<Rightarrow> jsnum" where
  "toDouble x =
     (if x = 0 then Fin 0
      else
        let e = max (floorLog2 \<bar>x\<bar> - 52) (- 1074);
            y = of_int (roundHalfEven (x / 2 powi e)) * 2 powi e
        in if 2 ^ 1024 \<le> \<bar>y\<bar> then (if 0 < x then PInf else NInf) else Fin y)"

fun js_neg :: "jsnum \<Rightarrow> jsnum" where
  "js_neg NaN = NaN"
| "js_neg PInf = NInf"
| "js_neg NInf = PInf"
| "js_neg (Fin a) = Fin (- a)"

text \<open>
  Sum, product and quotient: the rounded exact result on finite operands, the IEEE rules
  otherwise. A zero counts as positive where its sign would matter (a zero divisor, a
  zero against an infinity).
\<close>

definition js_add :: "jsnum \<Rightarrow> jsnum \<Rightarrow> jsnum" where
  "js_add x y =
     (case (x, y) of
        (Fin a, Fin b) \<Rightarrow> toDouble (a + b)
      | _ \<Rightarrow> if x = NaN \<or> y = NaN then NaN
             else if isFinite x then y
             else if isFinite y then x
             else if x = y then x else NaN)"

definition js_sub :: "jsnum \<Rightarrow> jsnum \<Rightarrow> jsnum" where
  "js_sub x y = js_add x (js_neg y)"

fun negative :: "jsnum \<Rightarrow> bool" where
  "negative NInf = True"
| "negative (Fin a) = (a < 0)"
| "negative x = False"

definition signedInf :: "bool \<Rightarrow> jsnum" where
  "signedInf neg = (if neg then NInf else PInf)"

definition js_mul :: "jsnum \<Rightarrow> jsnum \<Rightarrow> jsnum" where
  "js_mul x y =
     (case (x, y) of
        (Fin a, Fin b) \<Rightarrow> toDouble (a * b)
      | _ \<Rightarrow> if x = NaN \<or> y = NaN \<or> x = Fin 0 \<or> y = Fin 0 then NaN
             else signedInf (negative x \<noteq> negative y))"

definition js_div :: "jsnum \<Rightarrow> jsnum \<Rightarrow> jsnum" where
  "js_div x y =
     (case (x, y) of
        (Fin a, Fin b) \<Rightarrow>
          if b = 0 then (if a = 0 then NaN else signedInf (a < 0)) else toDouble (a / b)
      | _ \<Rightarrow> if x = NaN \<or> y = NaN then NaN
             else if isFinite x then Fin 0
             else if isFinite y then signedInf (negative x \<noteq> negative y)
             else NaN)"

definition js_less :: "jsnum \<Rightarrow> jsnum \<Rightarrow> bool" where
  "js_less x y =
     (case (x, y) of
        (Fin a, Fin b) \<Rightarrow> a < b
      | _ \<Rightarrow> x \<noteq> NaN \<and> y \<noteq> NaN \<and> x \<noteq> y \<and> (x = NInf \<or> y = PInf))"

definition js_le :: "jsnum \<Rightarrow> jsnum \<Rightarrow> bool" where
  "js_le x y \<longleftrightarrow> x \<noteq> NaN \<and> y \<noteq> NaN \<and> (x = y \<or> js_less x y)"

subsection \<open>The price calculation\<close>

text \<open>The fields of the form state that the calculation reads.\<close>

record Values =
  costPrice :: jsnum
  shippingFee :: jsnum
  feePercent :: jsnum
  targetProfitRate :: jsnum
  exchangeRate :: jsnum
  discountRate :: jsnum

text \<open>What the memoised calculation of \<open>Home\<close> returns; \<open>None\<close> is \<open>null\<close>.\<close>

record Prices =
  profit :: "jsnum option"
  sellPriceJPY :: "jsnum option"
  discountedPriceUSD :: "jsnum option"
  originalPriceUSD :: "jsnum option"
  error :: "string option"

definition ratesExceedMessage :: string where
  "ratesExceedMessage = [CHR 0xE5, CHR 0x88, CHR 0xA9, CHR 0xE7, CHR 0x9B, CHR 0x8A, CHR 0xE7, CHR 0x8E, CHR 0x87, CHR 0xE3, CHR 0x81, CHR 0xA8, CHR 0xE6, CHR 0x89, CHR 0x8B, CHR 0xE6, CHR 0x95, CHR 0xB0, CHR 0xE6, CHR 0x96, CHR 0x99, CHR 0xE7, CHR 0x8E, CHR 0x87, CHR 0xE3, CHR 0x81, CHR 0xAE, CHR 0xE5, CHR 0x90, CHR 0x88, CHR 0xE8, CHR 0xA8, CHR 0x88, CHR 0xE3, CHR 0x81, CHR 0x8C] @ ''100%'' @ [CHR 0xE3, CHR 0x82, CHR 0x92, CHR 0xE8, CHR 0xB6, CHR 0x85, CHR 0xE3, CHR 0x81, CHR 0x88, CHR 0xE3, CHR 0x81, CHR 0xA6, CHR 0xE3, CHR 0x81, CHR 0x84, CHR 0xE3, CHR 0x81, CHR 0xBE, CHR 0xE3, CHR 0x81, CHR 0x99, CHR 0xE3, CHR 0x80, CHR 0x82]"

definition computePrices :: "Values \<Rightarrow> Prices" where
  "computePrices values =
     (let feeRate = js_div (feePercent values) (Fin 100);
          profitRate = js_div (targetProfitRate values) (Fin 100);
          discount = js_div (discountRate values) (Fin 100);
          totalCost = js_add (costPrice values) (shippingFee values);
          divisor = js_sub (js_sub (Fin 1) feeRate) profitRate
      in if js_le divisor (Fin 0) then
           \<lparr>profit = None, sellPriceJPY = None, discountedPriceUSD = None,
            originalPriceUSD = None, error = Some ratesExceedMessage\<rparr>
         else
           let sellJPY = js_div totalCost divisor;
               prof = js_mul sellJPY profitRate;
               sellPriceUSD = (if truthyNum (exchangeRate values)
                               then js_div sellJPY (exchangeRate values) else Fin 0);
               original = (if js_less discount (Fin 1)
                           then js_div sellPriceUSD (js_sub (Fin 1) discount) else Fin 0)
           in \<lparr>profit = Some prof, sellPriceJPY = Some sellJPY,
               discountedPriceUSD = Some sellPriceUSD,
               originalPriceUSD = Some original, error = None\<rparr>)"

subsection \<open>The exchange rate\<close>

text \<open>
  \<open>fetchExchangeRate\<close>: the \<open>try\<close> block covers the \<open>fetch\<close>, \<open>res.json()\<close> and the
  conversion, and the \<open>catch\<close> returns 145. The status of the response is not read.
\<close>

definition fetchExchangeRate :: "platform \<Rightarrow> fetchOutcome \<Rightarrow> jsnum" where
  "fetchExchangeRate P outcome =
     (case outcome of
        Rejected \<Rightarrow> Fin 145
      | Response status None \<Rightarrow> Fin 145
      | Response status (Some data) \<Rightarrow>
          (case ToNumber P (nullishOr (optGet (get data ''rates'') ''JPY'') (JNum (Fin 145))) of
             Inl e \<Rightarrow> Fin 145
           | Inr n \<Rightarrow> n))"

section \<open>An instance of the platform\<close>

text \<open>
  To run examples, the four built-ins are instantiated on the part of their domain where
  they are plain: \<open>Number::toString\<close> on the integers of magnitude below \<open>10\<close> to the
  power \<open>21\<close> (decimal digits, no exponent) and on the values that are not finite,
  \<open>StringToNumber\<close> on the empty string and on strings of decimal digits,
  \<open>JSON.stringify\<close> on documents whose strings need no escape other than of the quote and
  the backslash, and the upper-case mapping on the Latin-1 Supplement (U+0080 to U+00FF)
  and on the characters that have no upper case of their own. The examples stay within
  that part.
\<close>

definition digitChar :: "nat \<Rightarrow> char" where
  "digitChar n = ''0123456789'' ! n"

fun digitsOf :: "nat \<Rightarrow> string" where
  "digitsOf n = (if n < 10 then [digitChar n] else digitsOf (n div 10) @ [digitChar (n mod 10)])"

declare digitsOf.simps [simp del]

definition plainNumToString :: "jsnum \<Rightarrow> string" where
  "plainNumToString n =
     (case n of
        NaN \<Rightarrow> ''NaN''
      | PInf \<Rightarrow> ''Infinity''
      | NInf \<Rightarrow> ''-Infinity''
      | Fin r \<Rightarrow>
          if r = of_int \<lfloor>r\<rfloor> \<and> \<bar>r\<bar> < 10 ^ 21
          then (if r < 0 then ''-'' else []) @ digitsOf (nat \<bar>\<lfloor>r\<rfloor>\<bar>)
          else ''?'')"

definition isDigit :: "char \<Rightarrow> bool" where
  "isDigit c \<longleftrightarrow> (48::nat) \<le> of_char c \<and> of_char c \<le> (57::nat)"

definition plainStringToNumber :: "string \<Rightarrow> jsnum" where
  "plainStringToNumber s =
     (if list_all isDigit s
      then toDouble (of_nat (foldl (\<lambda>acc c. 10 * acc + (of_char c - 48)) 0 s))
      else NaN)"

definition quoteJSON :: "string \<Rightarrow> string" where
  "quoteJSON s =
     [CHR 0x22] @
     concat (map (\<lambda>c. if c = CHR 0x22 \<or> c = CHR 0x5C then [CHR 0x5C, c] else [c]) s) @
     [CHR 0x22]"

fun plainStringify :: "json \<Rightarrow> string"
  and stringifyElems :: "json list \<Rightarrow> string list"
  and stringifyProps :: "(string \<times> json) list \<Rightarrow> string list" where
  "plainStringify JNull = ''null''"
| "plainStringify (JBool b) = (if b then ''true'' else ''false'')"
| "plainStringify (JNum n) = (if isFinite n then plainNumToString n else ''null'')"
| "plainStringify (JStr s) = quoteJSON s"
| "plainStringify (JArr xs) = ''['' @ join '','' (stringifyElems xs) @ '']''"
| "plainStringify (JObj kvs) = ''{'' @ join '','' (stringifyProps kvs) @ ''}''"
| "stringifyElems [] = []"
| "stringifyElems (x # xs) = plainStringify x # stringifyElems xs"
| "stringifyProps [] = []"
| "stringifyProps ((k, v) # kvs) = (quoteJSON k @ '':'' @ plainStringify v) # stringifyProps kvs"

text \<open>
  In the Latin-1 Supplement the small letters U+00E0 to U+00FE (but for the division
  sign U+00F7) have their capital 32 below; U+00FF has U+0178, the micro sign U+00B5 has
  U+039C, and the small sharp s U+00DF has the two letters \<open>SS\<close>. A character without
  an upper case, such as a capital letter, a digit or a kana, is its own image.
\<close>

definition plainUppercase :: "string \<Rightarrow> string" where
  "plainUppercase t =
     (case t of
        [a, b] \<Rightarrow>
          if a = CHR 0xC3 \<and> b = CHR 0x9F then ''SS''
          else if a = CHR 0xC3 \<and> b = CHR 0xBF then [CHR 0xC5, CHR 0xB8]
          else if a = CHR 0xC2 \<and> b = CHR 0xB5 then [CHR 0xCE, CHR 0x9C]
          else if a = CHR 0xC3 \<and> (0xA0::nat) \<le> of_char b \<and> of_char b \<le> (0xBE::nat)
                  \<and> b \<noteq> CHR 0xB7
               then [a, char_of (of_char b - (0x20::nat))]
          else t
      | _ \<Rightarrow> t)"

definition plain :: platform where
  "plain = \<lparr>numToString = plainNumToString,
            stringToNumber = plainStringToNumber,
            jsonStringify = plainStringify,
            uppercaseMapping = plainUppercase\<rparr>"

section \<open>Notions used to state the properties\<close>

text \<open>
  A run of bytes is one whole character when it has the length that its first byte
  announces.
\<close>

definition complete :: "string \<Rightarrow> bool" where
  "complete t \<longleftrightarrow> t \<noteq> [] \<and> length t = charLength (hd t)"

text \<open>
  Two ASCII characters are the same letter in different case when one is an upper-case
  and the other a lower-case letter and their codes are 32 apart. Two characters differ
  at most by the case of an ASCII letter when they are equal, or are such a pair.
\<close>

definition letterPair :: "char \<Rightarrow> char \<Rightarrow> bool" where
  "letterPair c d \<longleftrightarrow>
     (isUpper c \<and> isLower d \<and> of_char d = of_char c + (32::nat))
     \<or> (isLower c \<and> isUpper d \<and> of_char c = of_char d + (32::nat))"

definition caseVariant :: "string \<Rightarrow> string \<Rightarrow> bool" where
  "caseVariant t u \<longleftrightarrow>
     t = u \<or> (length t = 1 \<and> length u = 1 \<and> letterPair (hd t) (hd u))"

text \<open>
  A quote names a carrier when its \<open>carrier\<close> field is a string that contains the name,
  without regard to case. A Japan Post quote names \<open>japan post\<close> or \<open>japanpost\<close>.
\<close>

definition carrierText :: "json \<Rightarrow> string option" where
  "carrierText q = (case get q ''carrier'' of Some (JStr c) \<Rightarrow> Some (toLowerCase c) | _ \<Rightarrow> None)"

definition serviceText :: "json \<Rightarrow> string option" where
  "serviceText q = (case get q ''service'' of Some (JStr s) \<Rightarrow> Some s | _ \<Rightarrow> None)"

definition namesCarrier :: "string \<Rightarrow> json \<Rightarrow> bool" where
  "namesCarrier name q = (case carrierText q of Some c \<Rightarrow> str_includes c name | None \<Rightarrow> False)"

definition isJapanPost :: "json \<Rightarrow> bool" where
  "isJapanPost q \<longleftrightarrow> namesCarrier ''japan post'' q \<or> namesCarrier ''japanpost'' q"

text \<open>
  The gap-fill messages that belong to a list of accepted quotes: one for each required
  service, in the order of \<open>JAPAN_POST_SERVICES\<close>, that no quote with \<open>japan\<close> in its
  carrier name carries.
\<close>

definition gapMessages :: "RateSummary list \<Rightarrow> string list" where
  "gapMessages rs =
     map missingServiceMessage
       (filter (\<lambda>s. s \<notin> set (japanPostServices rs)) JAPAN_POST_SERVICES)"

section \<open>Inputs of the examples\<close>

text \<open>A remote service that answers every request in the same way.\<close>

definition alwaysRespond :: "fetchOutcome \<Rightarrow> json \<Rightarrow> fetchOutcome" where
  "alwaysRespond outcome request = outcome"

text \<open>A remote service that answers the two destinations differently.\<close>

definition respondByCountry :: "fetchOutcome \<Rightarrow> fetchOutcome \<Rightarrow> json \<Rightarrow> fetchOutcome" where
  "respondByCountry us other request =
     (if optGet (get request ''to_address'') ''country'' = Some (JStr ''US'') then us else other)"

definition usParcel :: params where
  "usParcel = \<lparr>country = ''US'', postal = ''10001'',
               weight = Fin 500, width = Fin 20, height = Fin 10, depth = Fin 10\<rparr>"

definition parcelRequest :: json where
  "parcelRequest =
     JObj [(''weight'', JNum (Fin 500)), (''width'', JNum (Fin 20)),
           (''height'', JNum (Fin 10)), (''depth'', JNum (Fin 10))]"

definition quote :: "string \<Rightarrow> string \<Rightarrow> json" where
  "quote c s =
     JObj [(''carrier'', JStr c), (''service'', JStr s),
           (''price'', JNum (Fin 5400)), (''currency'', JStr ''JPY'')]"

definition dhlSummary :: RateSummary where
  "dhlSummary = \<lparr>carrier = ''DHL'', service = ''dhl_express_worldwide'', price = Fin 5400,
                 currency = ''JPY'', estimated_delivery_dates = JNull, carrier_id = JNull\<rparr>"

definition dhlResult :: RatesResult where
  "dhlResult = \<lparr>rates = [dhlSummary], errors = map missingServiceMessage JAPAN_POST_SERVICES\<rparr>"

definition sixQuotes :: "json list" where
  "sixQuotes =
     [quote ''UPS'' ''ups_saver'',
      quote ''Japan Post'' ''japanpost_ems'',
      quote ''Japan Post'' ''japanpost_sal'',
      quote ''DHL Express'' ''dhl_express_worldwide'',
      quote ''JAPANPOST'' ''japanpost_smallpacket_air'',
      quote ''FedEx'' ''fedex_international_economy'']"

text \<open>
  The same six, but that the Japan Post quote with the service that is not allowed comes
  from a carrier whose name mentions \<open>DHL\<close> as well.
\<close>

definition handoverQuotes :: "json list" where
  "handoverQuotes =
     [quote ''UPS'' ''ups_saver'',
      quote ''Japan Post'' ''japanpost_ems'',
      quote ''Japan Post (DHL handover)'' ''japanpost_sal'',
      quote ''DHL Express'' ''dhl_express_worldwide'',
      quote ''JAPANPOST'' ''japanpost_smallpacket_air'',
      quote ''FedEx'' ''fedex_international_economy'']"

definition summary :: "string \<Rightarrow> string \<Rightarrow> RateSummary" where
  "summary c s = \<lparr>carrier = c, service = s, price = Fin 5400, currency = ''JPY'',
                  estimated_delivery_dates = JNull, carrier_id = JNull\<rparr>"

text \<open>A payload in which one quote is refused with a reported error.\<close>

definition refusedPayload :: json where
  "refusedPayload =
     JArr [JObj [(''carrier'', JStr ''UPS''),
                 (''errors'', JArr [JObj [(''message'', JStr ''no rate'')]])],
           quote ''Japan Post'' ''japanpost_ems'']"

definition refusedResult :: RatesResult where
  "refusedResult =
     \<lparr>rates = [summary ''Japan Post'' ''japanpost_ems''],
      errors = [''no rate'',
                missingServiceMessage ''japanpost_epacket_light'',
                missingServiceMessage ''japanpost_smallpacket_air'']\<rparr>"

definition ukParcel :: params where
  "ukParcel = \<lparr>country = ''GB'', postal = ''SW1A 1AA'',
               weight = Fin 500, width = Fin 20, height = Fin 10, depth = Fin 10\<rparr>"

text \<open>
  Characters outside ASCII: the no-break space U+00A0, the ideographic space U+3000, the
  small sharp s U+00DF and the capital sharp s U+1E9E.
\<close>

definition noBreakSpace :: string where
  "noBreakSpace = [CHR 0xC2, CHR 0xA0]"

definition ideographicSpace :: string where
  "ideographicSpace = [CHR 0xE3, CHR 0x80, CHR 0x80]"

definition smallSharpS :: string where
  "smallSharpS = [CHR 0xC3, CHR 0x9F]"

definition capitalSharpS :: string where
  "capitalSharpS = [CHR 0xE1, CHR 0xBA, CHR 0x9E]"

text \<open>An object whose own property \<open>toString\<close> is not a function.\<close>

definition shadowed :: json where
  "shadowed = JObj [(''toString'', JNum (Fin 1))]"

definition emptyWorld :: world where
  "emptyWorld = \<lparr>cache = Map.empty, fetchLog = []\<rparr>"

definition cachedWorld :: world where
  "cachedWorld =
     \<lparr>cache = [keyOf plain usParcel \<mapsto> \<lparr>expiresAt = 1000 + CACHE_TTL_MS, cvalue = dhlResult\<rparr>],
      fetchLog = [requestBody usParcel]\<rparr>"

section \<open>Properties of the cache key\<close>

lemma dropWhile_all: "\<forall>c\<in>set l. P c \<Longrightarrow> dropWhile P (l @ xs) = dropWhile P xs"
  by (induction l) auto

lemma chars_complete: "complete t \<Longrightarrow> chars (t @ x) = t # chars x"
  by (cases t) (simp_all add: complete_def)

lemma chars_concat: "list_all complete cs \<Longrightarrow> chars (concat cs @ x) = cs @ chars x"
  by (induction cs) (simp_all add: chars_complete)

lemma chars_characters: "list_all complete cs \<Longrightarrow> chars (concat cs) = cs"
  using chars_concat[of cs "[]"] by simp

lemma whiteSpace_complete: "list_all complete whiteSpace"
  by code_simp

lemma isWhiteSpace_complete: "isWhiteSpace t \<Longrightarrow> complete t"
  using whiteSpace_complete by (simp add: isWhiteSpace_def list_all_iff)

lemma strip_surround:
  assumes "list_all isWhiteSpace l" "list_all isWhiteSpace r"
  shows "strip (l @ m @ r) = strip m"
proof -
  have r: "dropWhile isWhiteSpace (rev r @ ys) = dropWhile isWhiteSpace ys" for ys
    using assms(2) by (intro dropWhile_all) (simp add: list_all_iff)
  have l: "dropWhile isWhiteSpace (l @ ys) = dropWhile isWhiteSpace ys" for ys
    using assms(1) by (intro dropWhile_all) (simp add: list_all_iff)
  show ?thesis
  proof (cases "\<forall>c\<in>set m. isWhiteSpace c")
    case True
    then have e: "dropWhile isWhiteSpace (m @ r) = []" "dropWhile isWhiteSpace m = []"
      using assms(2) by (auto simp: list_all_iff)
    show ?thesis unfolding strip_def l by (simp only: e)
  next
    case False
    then have e: "dropWhile isWhiteSpace (m @ r) = dropWhile isWhiteSpace m @ r"
      by (blast intro: dropWhile_append1)
    show ?thesis unfolding strip_def l e rev_append r ..
  qed
qed

lemma strip_subset: "set (strip cs) \<subseteq> set cs"
proof -
  have "set (dropWhile P xs) \<subseteq> set xs" for P and xs :: "string list"
    by (auto dest: set_dropWhileD)
  from this[of isWhiteSpace "rev (dropWhile isWhiteSpace cs)"] this[of isWhiteSpace cs]
  show ?thesis by (auto simp: strip_def)
qed

lemma strip_complete: "list_all complete cs \<Longrightarrow> list_all complete (strip cs)"
  using strip_subset[of cs] by (auto simp: list_all_iff)

lemma letterPair_upper: "letterPair c d \<Longrightarrow> upperChar c = upperChar d"
  unfolding letterPair_def upperChar_def isLower_def isUpper_def
  by (auto)

lemma singleton: "length t = 1 \<Longrightarrow> t = [hd t]"
  by (cases t) simp_all

lemma letter_not_whiteSpace: "isUpper c \<or> isLower c \<Longrightarrow> \<not> isWhiteSpace [c]"
  by (auto simp: isWhiteSpace_def whiteSpace_def isUpper_def isLower_def)

lemma letter_complete: "isUpper c \<or> isLower c \<Longrightarrow> complete [c]"
  by (auto simp: complete_def charLength_def isUpper_def isLower_def)

lemma caseVariant_cases:
  assumes "caseVariant t u"
  obtains "t = u" | c d where "t = [c]" "u = [d]" "letterPair c d"
  using assms singleton[of t] singleton[of u] unfolding caseVariant_def by metis

lemma caseVariant_ws: "caseVariant t u \<Longrightarrow> isWhiteSpace t = isWhiteSpace u"
  by (erule caseVariant_cases) (auto simp: letterPair_def letter_not_whiteSpace)

lemma caseVariant_complete: "caseVariant t u \<Longrightarrow> complete t \<Longrightarrow> complete u"
  by (erule caseVariant_cases) (auto simp: letterPair_def letter_complete)

lemma caseVariant_upper: "caseVariant t u \<Longrightarrow> upperOf P t = upperOf P u"
  by (erule caseVariant_cases) (auto simp: upperOf_def dest: letterPair_upper)

lemma list_all2_dropWhile:
  assumes "list_all2 R xs ys" "\<And>x y. R x y \<Longrightarrow> P x = P y"
  shows "list_all2 R (dropWhile P xs) (dropWhile P ys)"
  using assms(1) by (induction rule: list_all2_induct) (auto dest: assms(2))

lemma strip_caseVariant:
  assumes "list_all2 caseVariant cs ds"
  shows "list_all2 caseVariant (strip cs) (strip ds)"
  unfolding strip_def
  by (intro list_all2_rev1[THEN iffD2] list_all2_dropWhile assms caseVariant_ws | simp)+

lemma upper_caseVariant:
  assumes "list_all2 caseVariant cs ds"
  shows "map (upperOf P) cs = map (upperOf P) ds"
  using assms by (induction rule: list_all2_induct) (auto dest: caseVariant_upper)

lemma complete_caseVariant:
  assumes "list_all2 caseVariant cs ds" "list_all complete cs"
  shows "list_all complete ds"
  using assms by (induction rule: list_all2_induct) (auto dest: caseVariant_complete)

lemma toUpperCase_trim:
  assumes "list_all isWhiteSpace l" "list_all isWhiteSpace r" "list_all complete m"
  shows "toUpperCase P (trim (concat (l @ m @ r))) = concat (map (upperOf P) (strip m))"
proof -
  from assms have "list_all complete (l @ m @ r)"
    by (auto simp: list_all_iff dest: isWhiteSpace_complete)
  then have "trim (concat (l @ m @ r)) = concat (strip m)"
    by (simp only: trim_def chars_characters strip_surround[OF assms(1,2)])
  moreover have "chars (concat (strip m)) = strip m"
    using assms(3) by (intro chars_characters strip_complete)
  ultimately show ?thesis by (simp only: toUpperCase_def)
qed

lemma key_equal:
  assumes "list_all isWhiteSpace (l @ r @ l' @ r')" "list_all complete m"
    "list_all2 caseVariant m m'"
  shows "buildCacheKey P dest w wd h d (concat (l @ m @ r))
       = buildCacheKey P dest w wd h d (concat (l' @ m' @ r'))"
proof -
  from assms(1) have ws: "list_all isWhiteSpace l" "list_all isWhiteSpace r"
    "list_all isWhiteSpace l'" "list_all isWhiteSpace r'" by simp_all
  from assms(2,3) have m': "list_all complete m'" by (rule complete_caseVariant[rotated])
  have "map (upperOf P) (strip m) = map (upperOf P) (strip m')"
    by (intro upper_caseVariant strip_caseVariant assms(3))
  then have "toUpperCase P (trim (concat (l @ m @ r))) = toUpperCase P (trim (concat (l' @ m' @ r')))"
    by (simp only: toUpperCase_trim[OF ws(1,2) assms(2)] toUpperCase_trim[OF ws(3,4) m'])
  then show ?thesis
    by (simp only: buildCacheKey_def)
qed


lemma last_segment:
  assumes "c \<notin> set a" "c \<notin> set b" "x @ c # a = y @ c # b"
  shows "x = y \<and> a = b"
proof -
  have "takeWhile (\<lambda>d. d \<noteq> c) (rev (x @ c # a)) = rev a"
       "takeWhile (\<lambda>d. d \<noteq> c) (rev (y @ c # b)) = rev b"
    using assms(1,2) by (auto simp add: takeWhile_tail)
  with assms(3) have "a = b" by simp
  with assms(3) show ?thesis by simp
qed

lemma buildCacheKey_unfold:
  "buildCacheKey P dest w wd h d pc =
     ((((dest @ CHR '':'' # numToString P w) @ CHR '':'' # numToString P wd)
        @ CHR '':'' # numToString P h) @ CHR '':'' # numToString P d)
        @ CHR '':'' # toUpperCase P (trim pc)"
  by (simp add: buildCacheKey_def)

lemma key_same_request:
  "buildCacheKey P dest w wd h d pc = buildCacheKey P dest w wd h d pc'
     \<longleftrightarrow> toUpperCase P (trim pc) = toUpperCase P (trim pc')"
  unfolding buildCacheKey_unfold by simp

lemma key_fields:
  assumes c: "\<forall>n\<in>{w, w', wd, wd', h, h', d, d'}. CHR '':'' \<notin> set (numToString P n)"
    and eq: "buildCacheKey P dest w wd h d pc = buildCacheKey P dest' w' wd' h' d' pc"
  shows "dest = dest' \<and> numToString P w = numToString P w' \<and> numToString P wd = numToString P wd'
     \<and> numToString P h = numToString P h' \<and> numToString P d = numToString P d'"
proof -
  from eq have 1: "(((dest @ CHR '':'' # numToString P w) @ CHR '':'' # numToString P wd)
        @ CHR '':'' # numToString P h) @ CHR '':'' # numToString P d
     = (((dest' @ CHR '':'' # numToString P w') @ CHR '':'' # numToString P wd')
        @ CHR '':'' # numToString P h') @ CHR '':'' # numToString P d'"
    unfolding buildCacheKey_unfold by (rule append_same_eq[THEN iffD1])
  from c have cs: "CHR '':'' \<notin> set (numToString P w)" "CHR '':'' \<notin> set (numToString P w')"
     "CHR '':'' \<notin> set (numToString P wd)" "CHR '':'' \<notin> set (numToString P wd')"
     "CHR '':'' \<notin> set (numToString P h)" "CHR '':'' \<notin> set (numToString P h')"
     "CHR '':'' \<notin> set (numToString P d)" "CHR '':'' \<notin> set (numToString P d')"
    by simp_all
  from last_segment[OF cs(7,8) 1] have 2: "((dest @ CHR '':'' # numToString P w) @ CHR '':'' # numToString P wd)
        @ CHR '':'' # numToString P h = ((dest' @ CHR '':'' # numToString P w') @ CHR '':'' # numToString P wd')
        @ CHR '':'' # numToString P h'" and d: "numToString P d = numToString P d'" by simp_all
  from last_segment[OF cs(5,6) 2] have 3: "(dest @ CHR '':'' # numToString P w) @ CHR '':'' # numToString P wd
      = (dest' @ CHR '':'' # numToString P w') @ CHR '':'' # numToString P wd'"
     and h: "numToString P h = numToString P h'" by simp_all
  from last_segment[OF cs(3,4) 3] have 4: "dest @ CHR '':'' # numToString P w = dest' @ CHR '':'' # numToString P w'"
     and wd: "numToString P wd = numToString P wd'" by simp_all
  from last_segment[OF cs(1,2) 4] d h wd show ?thesis by simp
qed

lemma key_distinct:
  assumes i: "inj_on (numToString P) {w, w', wd, wd', h, h', d, d'}"
    and c: "\<forall>n\<in>{w, w', wd, wd', h, h', d, d'}. CHR '':'' \<notin> set (numToString P n)"
    and ne: "(dest, w, wd, h, d) \<noteq> (dest', w', wd', h', d')"
  shows "buildCacheKey P dest w wd h d pc \<noteq> buildCacheKey P dest' w' wd' h' d' pc"
proof
  assume "buildCacheKey P dest w wd h d pc = buildCacheKey P dest' w' wd' h' d' pc"
  from key_fields[OF c this]
  have f: "dest = dest'" "numToString P w = numToString P w'"
    "numToString P wd = numToString P wd'" "numToString P h = numToString P h'"
    "numToString P d = numToString P d'"
    by blast+
  have "w = w'" by (rule inj_onD[OF i f(2)]) simp_all
  moreover have "wd = wd'" by (rule inj_onD[OF i f(3)]) simp_all
  moreover have "h = h'" by (rule inj_onD[OF i f(4)]) simp_all
  moreover have "d = d'" by (rule inj_onD[OF i f(5)]) simp_all
  ultimately show False using f(1) ne by simp
qed

text \<open>White space outside ASCII is trimmed, and a postal code made of it alone is replaced by the default.\<close>

lemma trim_unicode_space:
  "trim (noBreakSpace @ ''sw1a 1aa'' @ ideographicSpace) = ''sw1a 1aa''"
  "postalOr plain (Some (JStr noBreakSpace)) ''10001'' = Inr ''10001''"
  by code_simp+

text \<open>
  C4 (as amended). Take two postal codes made of whole characters: white space (\<open>l\<close>,
  \<open>r\<close>, \<open>l'\<close>, \<open>r'\<close>, any of the white-space characters and line terminators that
  \<open>trim\<close> removes) around two runs of characters \<open>m\<close> and \<open>m'\<close> that differ at most by
  the case of ASCII letters. They give the same key, all else equal. In general two
  postal codes give the same key, all else equal, exactly when their trimmed forms have
  the same upper case. For one postal code, two requests that differ in the destination
  or in any of the four numbers give different keys, given what holds of
  \<open>Number::toString\<close>: distinct numbers have distinct texts, and no text contains a colon.
\<close>

theorem buildCacheKey_equivalence:
  "(list_all isWhiteSpace (l @ r @ l' @ r') \<and> list_all complete m \<and> list_all2 caseVariant m m' \<longrightarrow>
      buildCacheKey P dest w wd h d (concat (l @ m @ r))
        = buildCacheKey P dest w wd h d (concat (l' @ m' @ r')))
   \<and> (buildCacheKey P dest w wd h d pc = buildCacheKey P dest w wd h d pc'
        \<longleftrightarrow> toUpperCase P (trim pc) = toUpperCase P (trim pc'))
   \<and> (inj_on (numToString P) {w, w', wd, wd', h, h', d, d'} \<and>
      (\<forall>n\<in>{w, w', wd, wd', h, h', d, d'}. CHR '':'' \<notin> set (numToString P n)) \<and>
      (dest, w, wd, h, d) \<noteq> (dest', w', wd', h', d') \<longrightarrow>
      buildCacheKey P dest w wd h d pc \<noteq> buildCacheKey P dest' w' wd' h' d' pc)"
  apply (intro conjI impI)
    apply (elim conjE)
    apply (rule key_equal; assumption)
   apply (rule key_same_request)
  apply (elim conjE)
  apply (rule key_distinct; assumption)
  done

lemma plain_numerals:
  "numToString plain (Fin 500) = ''500''" "numToString plain (Fin 750) = ''750''"
  "numToString plain (Fin 20) = ''20''" "numToString plain (Fin 10) = ''10''"
  by (simp_all add: plain_def plainNumToString_def digitsOf.simps digitChar_def)

theorem buildCacheKey_equivalence_witness:
  "list_all isWhiteSpace ([[CHR 0x09], noBreakSpace] @ [] @ [ideographicSpace] @ [[CHR 0x0A]])
   \<and> list_all complete (chars ''sw1a 1aa'')
   \<and> list_all2 caseVariant (chars ''sw1a 1aa'') (chars ''SW1A 1AA'')
   \<and> buildCacheKey plain ''GB'' (Fin 500) (Fin 20) (Fin 10) (Fin 10)
       ([CHR 0x09] @ noBreakSpace @ ''sw1a 1aa'')
     = buildCacheKey plain ''GB'' (Fin 500) (Fin 20) (Fin 10) (Fin 10)
       (ideographicSpace @ ''SW1A 1AA'' @ [CHR 0x0A])
   \<and> buildCacheKey plain ''GB'' (Fin 500) (Fin 20) (Fin 10) (Fin 10)
       ([CHR 0x09] @ noBreakSpace @ ''sw1a 1aa'') = ''GB:500:20:10:10:SW1A 1AA''
   \<and> toUpperCase plain (trim ''sw1a 1aa'') = toUpperCase plain (trim ''Sw1A 1aa '')
   \<and> buildCacheKey plain ''GB'' (Fin 500) (Fin 20) (Fin 10) (Fin 10) ''10001''
     \<noteq> buildCacheKey plain ''US'' (Fin 750) (Fin 20) (Fin 10) (Fin 10) ''10001''"
proof -
  have ws: "list_all isWhiteSpace ([[CHR 0x09], noBreakSpace] @ [] @ [ideographicSpace] @ [[CHR 0x0A]])"
    by code_simp
  have m: "list_all complete (chars ''sw1a 1aa'')"
    "list_all2 caseVariant (chars ''sw1a 1aa'') (chars ''SW1A 1AA'')"
    by code_simp+
  have pc: "concat ([[CHR 0x09], noBreakSpace] @ chars ''sw1a 1aa'' @ [])
              = [CHR 0x09] @ noBreakSpace @ ''sw1a 1aa''"
    "concat ([ideographicSpace] @ chars ''SW1A 1AA'' @ [[CHR 0x0A]])
              = ideographicSpace @ ''SW1A 1AA'' @ [CHR 0x0A]"
    by code_simp+
  have k: "buildCacheKey plain ''GB'' (Fin 500) (Fin 20) (Fin 10) (Fin 10) ''sw1a 1aa''
     = buildCacheKey plain ''GB'' (Fin 500) (Fin 20) (Fin 10) (Fin 10) ''Sw1A 1aa ''"
    "buildCacheKey plain ''GB'' (Fin 500) (Fin 20) (Fin 10) (Fin 10)
       ([CHR 0x09] @ noBreakSpace @ ''sw1a 1aa'') = ''GB:500:20:10:10:SW1A 1AA''"
    by code_simp+
  have i: "inj_on (numToString plain) {Fin 500, Fin 750, Fin 20, Fin 20, Fin 10, Fin 10, Fin 10, Fin 10}"
    "\<forall>n\<in>{Fin 500, Fin 750, Fin 20, Fin 20, Fin 10, Fin 10, Fin 10, Fin 10}.
       CHR '':'' \<notin> set (numToString plain n)"
    by (simp_all add: plain_numerals)
  from buildCacheKey_equivalence [where l = "[[CHR 0x09], noBreakSpace]" and r = "[]"
      and l' = "[ideographicSpace]" and r' = "[[CHR 0x0A]]"
      and m = "chars ''sw1a 1aa''" and m' = "chars ''SW1A 1AA''" and P = plain
      and w = "Fin 500" and wd = "Fin 20" and h = "Fin 10" and d = "Fin 10"
      and w' = "Fin 750" and wd' = "Fin 20" and h' = "Fin 10" and d' = "Fin 10"
      and dest = "''GB''" and dest' = "''US''" and pc = "''sw1a 1aa''" and pc' = "''Sw1A 1aa ''"]
    buildCacheKey_equivalence [where P = plain
      and w = "Fin 500" and wd = "Fin 20" and h = "Fin 10" and d = "Fin 10"
      and w' = "Fin 750" and wd' = "Fin 20" and h' = "Fin 10" and d' = "Fin 10"
      and dest = "''GB''" and dest' = "''US''" and pc = "''10001''"]
      ws m i k
  show ?thesis
    unfolding pc by simp
qed

text \<open>
  C4 as stated fails outside ASCII: the small sharp s U+00DF and the capital sharp s
  U+1E9E are one letter in its two cases, yet the upper case of the first is \<open>SS\<close> and
  the second is its own upper case, so the two postal codes give two keys.
\<close>

theorem sharp_s_keys_differ:
  "buildCacheKey plain ''GB'' (Fin 500) (Fin 20) (Fin 10) (Fin 10) smallSharpS
     = ''GB:500:20:10:10:SS''
   \<and> buildCacheKey plain ''GB'' (Fin 500) (Fin 20) (Fin 10) (Fin 10) capitalSharpS
     = ''GB:500:20:10:10:'' @ capitalSharpS
   \<and> buildCacheKey plain ''GB'' (Fin 500) (Fin 20) (Fin 10) (Fin 10) smallSharpS
     \<noteq> buildCacheKey plain ''GB'' (Fin 500) (Fin 20) (Fin 10) (Fin 10) capitalSharpS"
  by code_simp

section \<open>Properties of the cache store and the lookup\<close>

lemma bind_Inr [simp]: "bind (Inr x) f = f x"
  by (simp add: bind_def)

lemma bind_Inl [simp]: "bind (Inl e) f = Inl e"
  by (simp add: bind_def)

lemma bind_eq_Inr: "bind m f = Inr y \<longleftrightarrow> (\<exists>x. m = Inr x \<and> f x = Inr y)"
  by (cases m) simp_all

lemma pruneCache_lookup:
  "pruneCache now c key = (case c key of None \<Rightarrow> None
      | Some entry \<Rightarrow> if expiresAt entry \<le> now then None else Some entry)"
  by (simp add: pruneCache_def)

lemma cacheLookup_live:
  assumes "c (keyOf P p) = Some entry" "now < expiresAt entry"
  shows "cacheLookup P now p c = (Some (cvalue entry), pruneCache now c)"
  using assms by (simp add: cacheLookup_def pruneCache_lookup)

lemma cacheLookup_expired:
  assumes "c (keyOf P p) = Some entry" "expiresAt entry \<le> now"
  shows "cacheLookup P now p c = (None, pruneCache now c)"
  using assms by (simp add: cacheLookup_def pruneCache_lookup)

lemma cacheLookup_snd: "snd (cacheLookup P now p c) = pruneCache now c"
  by (simp add: cacheLookup_def Let_def)

lemma getRates_hit:
  assumes "cacheLookup P now p (cache w) = (Some v, c')"
  shows "getRatesForDestination P apiKey net now p w = (Inr v, w\<lparr>cache := c'\<rparr>)"
  using assms by (simp add: getRatesForDestination_def)

lemma getRates_miss:
  assumes "cacheLookup P now p (cache w) = (None, c')"
  shows "getRatesForDestination P apiKey net now p w =
     (case afterMiss P apiKey net now p of
        Inl e \<Rightarrow> (Inl e, \<lparr>cache = c', fetchLog = fetchLog w @ [requestBody p]\<rparr>)
      | Inr (result, entry) \<Rightarrow>
          (Inr result, \<lparr>cache = store (keyOf P p) entry c', fetchLog = fetchLog w @ [requestBody p]\<rparr>))"
  using assms by (simp add: getRatesForDestination_def Let_def split: sum.splits prod.splits)

lemma gapFill_append:
  "gapFill ss present errs =
     errs @ map missingServiceMessage (filter (\<lambda>s. s \<notin> set present) ss)"
  by (induction ss arbitrary: errs) simp_all

text \<open>A payload that is \<open>null\<close> (an unparseable body) has no quotes, so all three services are missing.\<close>

lemma annotate_null:
  "annotate P JNull = Inr \<lparr>rates = [], errors = map missingServiceMessage JAPAN_POST_SERVICES\<rparr>"
  by (simp add: annotate_def rawRates_def japanPostServices_def gapFill_append)

lemma afterMiss_entry:
  assumes "afterMiss P apiKey net now p = Inr (result, Some entry)"
  shows "entry = \<lparr>expiresAt = now + 60000, cvalue = result\<rparr>"
  using assms
  by (auto simp: afterMiss_def bind_def CACHE_TTL_MS_def split: sum.splits apiResult.splits)

lemma afterMiss_fresh:
  assumes "fetchRates apiKey net (requestBody p) = Inr (Success data)" "annotate P data = Inr result"
  shows "afterMiss P apiKey net now p
     = Inr (result, Some \<lparr>expiresAt = now + 60000, cvalue = result\<rparr>)"
  using assms by (simp add: afterMiss_def CACHE_TTL_MS_def)

text \<open>
  C5. With an entry under the key that was created at \<open>t0\<close> (so that it expires at
  \<open>t0 + 60000\<close>), a lookup at \<open>now\<close> before the expiry returns the cached result, leaves
  the entry in place and does not call \<open>fetchRates\<close>. At or after the expiry the entry is
  removed by the pruning of that lookup, \<open>fetchRates\<close> is called with the request body,
  and the lookup answers what the fresh call gives. The cache it leaves is the pruned
  cache, to which the entry of the fresh result is added under the key when line 217 is
  reached: the key then holds either nothing or the result just returned, expiring 60000
  after \<open>now\<close>, and on a successful call it holds the latter. So the cached result is
  returned without a call exactly when \<open>now < t0 + 60000\<close>.
\<close>

theorem cache_ttl:
  assumes "cache w (keyOf P p) = Some \<lparr>expiresAt = t0 + CACHE_TTL_MS, cvalue = v\<rparr>"
  shows "(now < t0 + 60000 \<longrightarrow>
            getRatesForDestination P apiKey net now p w
              = (Inr v, w\<lparr>cache := pruneCache now (cache w)\<rparr>)
          \<and> pruneCache now (cache w) (keyOf P p)
              = Some \<lparr>expiresAt = t0 + CACHE_TTL_MS, cvalue = v\<rparr>)
       \<and> (t0 + 60000 \<le> now \<longrightarrow>
            pruneCache now (cache w) (keyOf P p) = None
          \<and> getRatesForDestination P apiKey net now p w
              = (map_sum id fst (afterMiss P apiKey net now p),
                 \<lparr>cache = store (keyOf P p)
                            (case afterMiss P apiKey net now p of
                               Inl e \<Rightarrow> None | Inr (result, entry) \<Rightarrow> entry)
                            (pruneCache now (cache w)),
                  fetchLog = fetchLog w @ [requestBody p]\<rparr>)
          \<and> (cache (snd (getRatesForDestination P apiKey net now p w)) (keyOf P p) = None
              \<or> (\<exists>result. fst (getRatesForDestination P apiKey net now p w) = Inr result
                   \<and> cache (snd (getRatesForDestination P apiKey net now p w)) (keyOf P p)
                       = Some \<lparr>expiresAt = now + 60000, cvalue = result\<rparr>))
          \<and> (fetchRates apiKey net (requestBody p) = Inr (Success data)
               \<and> annotate P data = Inr fresh \<longrightarrow>
              getRatesForDestination P apiKey net now p w
                = (Inr fresh,
                   \<lparr>cache = (pruneCache now (cache w))
                      (keyOf P p \<mapsto> \<lparr>expiresAt = now + 60000, cvalue = fresh\<rparr>),
                    fetchLog = fetchLog w @ [requestBody p]\<rparr>))
          \<and> fetchLog (snd (getRatesForDestination P apiKey net now p w))
              = fetchLog w @ [requestBody p]
          \<and> fst (getRatesForDestination P apiKey net now p w)
              = map_sum id fst (afterMiss P apiKey net now p))
       \<and> (fst (getRatesForDestination P apiKey net now p w) = Inr v
          \<and> fetchLog (snd (getRatesForDestination P apiKey net now p w)) = fetchLog w
          \<longleftrightarrow> now < t0 + 60000)"
proof -
  let ?e = "\<lparr>expiresAt = t0 + CACHE_TTL_MS, cvalue = v\<rparr>"
  let ?G = "getRatesForDestination P apiKey net now p w"
  let ?W = "\<lparr>cache = store (keyOf P p)
                            (case afterMiss P apiKey net now p of
                               Inl e \<Rightarrow> None | Inr (result, entry) \<Rightarrow> entry)
                            (pruneCache now (cache w)),
                  fetchLog = fetchLog w @ [requestBody p]\<rparr>"
  have live: "?G = (Inr v, w\<lparr>cache := pruneCache now (cache w)\<rparr>)
          \<and> pruneCache now (cache w) (keyOf P p) = Some ?e" if "now < t0 + 60000"
  proof -
    from that assms have "cacheLookup P now p (cache w) = (Some v, pruneCache now (cache w))"
      by (simp add: cacheLookup_def pruneCache_lookup CACHE_TTL_MS_def)
    with that assms show ?thesis
      by (simp add: getRates_hit pruneCache_lookup CACHE_TTL_MS_def)
  qed
  have gone: "pruneCache now (cache w) (keyOf P p) = None" if "t0 + 60000 \<le> now"
    using that assms by (simp add: pruneCache_lookup CACHE_TTL_MS_def)
  have dead: "?G = (map_sum id fst (afterMiss P apiKey net now p), ?W)" if "t0 + 60000 \<le> now"
  proof -
    from that assms have "cacheLookup P now p (cache w) = (None, pruneCache now (cache w))"
      by (simp add: cacheLookup_def pruneCache_lookup CACHE_TTL_MS_def)
    then show ?thesis
      by (simp add: getRates_miss store_def split: sum.splits prod.splits)
  qed
  have entry: "cache (snd ?G) (keyOf P p) = None
              \<or> (\<exists>result. fst ?G = Inr result
                   \<and> cache (snd ?G) (keyOf P p)
                       = Some \<lparr>expiresAt = now + 60000, cvalue = result\<rparr>)"
    if "t0 + 60000 \<le> now"
  proof (cases "afterMiss P apiKey net now p")
    case (Inl e)
    with dead[OF that] gone[OF that] show ?thesis by (simp add: store_def)
  next
    case (Inr a)
    obtain result entry where a: "a = (result, entry)" by (cases a)
    show ?thesis
    proof (cases entry)
      case None
      with Inr a dead[OF that] gone[OF that] show ?thesis by (simp add: store_def)
    next
      case (Some e)
      with Inr a have "e = \<lparr>expiresAt = now + 60000, cvalue = result\<rparr>"
        by (simp add: afterMiss_entry)
      with Some Inr a dead[OF that] show ?thesis by (simp add: store_def)
    qed
  qed
  have fresh: "?G = (Inr fresh,
                   \<lparr>cache = (pruneCache now (cache w))
                      (keyOf P p \<mapsto> \<lparr>expiresAt = now + 60000, cvalue = fresh\<rparr>),
                    fetchLog = fetchLog w @ [requestBody p]\<rparr>)"
    if "t0 + 60000 \<le> now" "fetchRates apiKey net (requestBody p) = Inr (Success data)"
      "annotate P data = Inr fresh"
    unfolding dead[OF that(1)] afterMiss_fresh[OF that(2,3)] by (simp add: store_def)
  have log: "fetchLog (snd ?G) = fetchLog w @ [requestBody p]"
    "fst ?G = map_sum id fst (afterMiss P apiKey net now p)" if "t0 + 60000 \<le> now"
    unfolding dead[OF that] by simp_all
  have iff: "(fst ?G = Inr v \<and> fetchLog (snd ?G) = fetchLog w) = (now < t0 + 60000)"
  proof (cases "now < t0 + 60000")
    case True
    with live show ?thesis by simp
  next
    case False
    then have "t0 + 60000 \<le> now" by simp
    from log(1)[OF this] False show ?thesis by simp
  qed
  show ?thesis
    apply (intro conjI impI)
            apply (rule live[THEN conjunct1]; assumption)
           apply (rule live[THEN conjunct2]; assumption)
          apply (rule gone; assumption)
         apply (rule dead; assumption)
        apply (rule entry; assumption)
       apply (elim conjE)
       apply (rule fresh; assumption)
      apply (rule log(1); assumption)
     apply (rule log(2); assumption)
    apply (rule iff)
    done
qed

lemma keyOf_usParcel: "keyOf plain usParcel = ''US:500:20:10:10:10001''"
  by code_simp

lemma cachedWorld_fields:
  "cache cachedWorld = [keyOf plain usParcel \<mapsto> \<lparr>expiresAt = 61000, cvalue = dhlResult\<rparr>]"
  "fetchLog cachedWorld = [requestBody usParcel]"
  by (simp_all add: cachedWorld_def CACHE_TTL_MS_def)

theorem cache_ttl_witness:
  "cache cachedWorld (keyOf plain usParcel)
      = Some \<lparr>expiresAt = 1000 + CACHE_TTL_MS, cvalue = dhlResult\<rparr>
   \<and> getRatesForDestination plain (Some ''key'') (alwaysRespond Rejected) 60999 usParcel cachedWorld
      = (Inr dhlResult, cachedWorld\<lparr>cache := pruneCache 60999 (cache cachedWorld)\<rparr>)
   \<and> pruneCache 60999 (cache cachedWorld) (keyOf plain usParcel)
      = Some \<lparr>expiresAt = 61000, cvalue = dhlResult\<rparr>
   \<and> pruneCache 61000 (cache cachedWorld) (keyOf plain usParcel) = None
   \<and> getRatesForDestination plain (Some ''key'') (alwaysRespond Rejected) 61000 usParcel cachedWorld
      = (Inl FetchRejected,
         \<lparr>cache = pruneCache 61000 (cache cachedWorld),
          fetchLog = [requestBody usParcel, requestBody usParcel]\<rparr>)
   \<and> getRatesForDestination plain (Some ''key'') (alwaysRespond (Response 200 None)) 61000
        usParcel cachedWorld
      = (Inr \<lparr>rates = [], errors = map missingServiceMessage JAPAN_POST_SERVICES\<rparr>,
         \<lparr>cache = (pruneCache 61000 (cache cachedWorld))
            (keyOf plain usParcel \<mapsto>
               \<lparr>expiresAt = 121000,
                cvalue = \<lparr>rates = [],
                          errors = map missingServiceMessage JAPAN_POST_SERVICES\<rparr>\<rparr>),
          fetchLog = [requestBody usParcel, requestBody usParcel]\<rparr>)"
proof -
  have e: "cache cachedWorld (keyOf plain usParcel)
      = Some \<lparr>expiresAt = 1000 + CACHE_TTL_MS, cvalue = dhlResult\<rparr>"
    by (simp add: cachedWorld_def)
  have r: "afterMiss plain (Some ''key'') (alwaysRespond Rejected) 61000 usParcel = Inl FetchRejected"
    by (simp add: afterMiss_def fetchRates_def alwaysRespond_def)
  have f: "fetchRates (Some ''key'') (alwaysRespond (Response 200 None)) (requestBody usParcel)
      = Inr (Success JNull)"
    by (simp add: fetchRates_def alwaysRespond_def response_ok_def)
  have a: "afterMiss plain (Some ''key'') (alwaysRespond (Response 200 None)) 61000 usParcel
      = Inr (\<lparr>rates = [], errors = map missingServiceMessage JAPAN_POST_SERVICES\<rparr>,
             Some \<lparr>expiresAt = 61000 + 60000,
                   cvalue = \<lparr>rates = [], errors = map missingServiceMessage JAPAN_POST_SERVICES\<rparr>\<rparr>)"
    using f by (rule afterMiss_fresh) (rule annotate_null)
  from cache_ttl [OF e, of 60999 "Some ''key''" "alwaysRespond Rejected"]
    cache_ttl [OF e, of 61000 "Some ''key''" "alwaysRespond Rejected"]
    cache_ttl [OF e, of 61000 "Some ''key''" "alwaysRespond (Response 200 None)" JNull
       "\<lparr>rates = [], errors = map missingServiceMessage JAPAN_POST_SERVICES\<rparr>"]
    e r f
  show ?thesis
    by (simp add: a annotate_null store_def CACHE_TTL_MS_def cachedWorld_fields(2))
qed

lemma plainStatus: "numToString plain (Fin (of_nat 500)) = ''500''"
  by (simp add: plain_def plainNumToString_def digitsOf.simps digitChar_def)

lemma annotate_dhl:
  "annotate plain (JArr [quote ''DHL'' ''dhl_express_worldwide'']) = Inr dhlResult"
  by code_simp

text \<open>
  C3 (as amended). On a miss the result of a successful call (a 2xx status, whatever the
  body) is written to the cache under the key, with the expiry \<open>now + 60000\<close>, and
  returned; for an unparseable body that result is the empty quote list with the three
  gap-fill messages. The result of a failed call (no access token, or a status outside
  2xx) is returned and nothing is written.
\<close>

theorem miss_store:
  assumes "fst (cacheLookup P now p (cache w)) = None"
  shows "(apiKey = Some k \<and> k \<noteq> [] \<and> net (requestBody p) = Response status body
            \<and> response_ok status
            \<and> annotate P (case body of None \<Rightarrow> JNull | Some d \<Rightarrow> d) = Inr result \<longrightarrow>
            getRatesForDestination P apiKey net now p w
              = (Inr result,
                 \<lparr>cache = (pruneCache now (cache w))
                    (keyOf P p \<mapsto> \<lparr>expiresAt = now + 60000, cvalue = result\<rparr>),
                  fetchLog = fetchLog w @ [requestBody p]\<rparr>))
       \<and> (apiKey = Some k \<and> k \<noteq> [] \<and> net (requestBody p) = Response status None
            \<and> response_ok status \<longrightarrow>
            getRatesForDestination P apiKey net now p w
              = (Inr \<lparr>rates = [], errors = map missingServiceMessage JAPAN_POST_SERVICES\<rparr>,
                 \<lparr>cache = (pruneCache now (cache w))
                    (keyOf P p \<mapsto>
                       \<lparr>expiresAt = now + 60000,
                        cvalue = \<lparr>rates = [],
                                  errors = map missingServiceMessage JAPAN_POST_SERVICES\<rparr>\<rparr>),
                  fetchLog = fetchLog w @ [requestBody p]\<rparr>))
       \<and> (fetchRates apiKey net (requestBody p) = Inr (Failure status' message)
            \<and> ToString P message = Inr m \<longrightarrow>
            getRatesForDestination P apiKey net now p w
              = (Inr \<lparr>rates = [],
                       errors = [failureText (country p) (numToString P (Fin (of_nat status'))) m]\<rparr>,
                 \<lparr>cache = pruneCache now (cache w),
                  fetchLog = fetchLog w @ [requestBody p]\<rparr>))"
proof -
  from assms have l: "cacheLookup P now p (cache w) = (None, pruneCache now (cache w))"
    by (metis cacheLookup_snd prod.collapse)
  show ?thesis
    unfolding getRates_miss[OF l]
    by (auto simp: afterMiss_def fetchRates_def store_def CACHE_TTL_MS_def annotate_null)
qed

lemma cacheLookup_emptyWorld: "cacheLookup P now p (cache emptyWorld) = (None, Map.empty)"
  by (simp add: cacheLookup_def emptyWorld_def pruneCache_def)

theorem miss_store_witness:
  "fst (cacheLookup plain 1000 usParcel (cache emptyWorld)) = None
   \<and> fst (getRatesForDestination plain (Some ''key'')
        (alwaysRespond (Response 200 (Some (JArr [quote ''DHL'' ''dhl_express_worldwide'']))))
        1000 usParcel emptyWorld) = Inr dhlResult
   \<and> cache (snd (getRatesForDestination plain (Some ''key'')
        (alwaysRespond (Response 200 (Some (JArr [quote ''DHL'' ''dhl_express_worldwide'']))))
        1000 usParcel emptyWorld)) (keyOf plain usParcel)
      = Some \<lparr>expiresAt = 61000, cvalue = dhlResult\<rparr>
   \<and> fst (getRatesForDestination plain None (alwaysRespond Rejected) 1000 usParcel emptyWorld)
      = Inr \<lparr>rates = [], errors = [failureText ''US'' ''500'' missingKeyMessage]\<rparr>
   \<and> cache (snd (getRatesForDestination plain None (alwaysRespond Rejected) 1000 usParcel
        emptyWorld)) (keyOf plain usParcel) = None"
proof -
  have miss: "fst (cacheLookup plain 1000 usParcel (cache emptyWorld)) = None"
    by (simp add: cacheLookup_emptyWorld)
  have st: "numToString plain (Fin 500) = ''500''"
    by (simp add: plain_def plainNumToString_def digitsOf.simps digitChar_def)
  have us: "country usParcel = ''US''" "cache emptyWorld = Map.empty"
    by (simp_all add: usParcel_def emptyWorld_def)
  show ?thesis
    using miss
      miss_store [OF miss, of "Some ''key''" "''key''"
        "alwaysRespond (Response 200 (Some (JArr [quote ''DHL'' ''dhl_express_worldwide''])))"
        200 "Some (JArr [quote ''DHL'' ''dhl_express_worldwide''])" dhlResult]
      miss_store [OF miss, of None k "alwaysRespond Rejected"
        status body result 500 "JStr missingKeyMessage" missingKeyMessage]
    by (simp add: alwaysRespond_def response_ok_def annotate_dhl fetchRates_def
        pruneCache_def st us)
qed

text \<open>
  C3 as stated fails: a 500 response on a miss yields the empty quote list with the one
  synthesized message, and the cache holds no entry under the key afterwards.
\<close>

theorem failure_not_stored:
  "fst (getRatesForDestination plain (Some ''key'') (alwaysRespond (Response 500 None)) 1000
          usParcel emptyWorld)
     = Inr \<lparr>rates = [], errors = [failureText ''US'' ''500'' callFailedMessage]\<rparr>
   \<and> cache (snd (getRatesForDestination plain (Some ''key'') (alwaysRespond (Response 500 None)) 1000
          usParcel emptyWorld)) (keyOf plain usParcel) = None"
  by (simp add: getRatesForDestination_def cacheLookup_def pruneCache_def emptyWorld_def
      afterMiss_def fetchRates_def alwaysRespond_def response_ok_def nullishOr_def store_def
      usParcel_def plain_def plainNumToString_def digitsOf.simps digitChar_def)

section \<open>Properties of the filter\<close>

lemma carrierText_Some:
  "carrierText q = Some c \<longleftrightarrow> (\<exists>t. get q ''carrier'' = Some (JStr t) \<and> c = toLowerCase t)"
  by (auto simp: carrierText_def split: option.splits json.splits)

lemma allowed_text:
  assumes "carrierText q = Some c"
  shows "allowed P q =
     (if str_includes c ''dhl'' then Inr True
      else if str_includes c ''fedex'' then Inr True
      else if str_includes c ''japan post'' \<or> str_includes c ''japanpost'' then
        bind (ToStringOpt P (get q ''service'')) (\<lambda>s. Inr (s \<in> set JAPAN_POST_SERVICES))
      else Inr False)"
proof -
  from assms obtain t where t: "get q ''carrier'' = Some (JStr t)" "c = toLowerCase t"
    unfolding carrierText_Some by blast
  have "ToString P (nullishOr (get q ''carrier'') (JStr [])) = Inr t"
    by (simp add: t nullishOr_def)
  then show ?thesis
    unfolding allowed_def t(2) by (simp only: bind_Inr Let_def)
qed


lemma allowed_named:
  assumes "namesCarrier ''dhl'' q \<or> namesCarrier ''fedex'' q"
  shows "allowed P q = Inr True"
proof -
  from assms obtain c where c: "carrierText q = Some c"
    and "str_includes c ''dhl'' \<or> str_includes c ''fedex''"
    by (auto simp: namesCarrier_def split: option.splits)
  then show ?thesis
    by (auto simp only: allowed_text[OF c] if_True split: if_splits)
qed

lemma serviceText_Some:
  "serviceText q = Some s \<longleftrightarrow> get q ''service'' = Some (JStr s)"
  by (auto simp: serviceText_def split: option.splits json.splits)

lemma allowed_japanPost:
  assumes "isJapanPost q" "serviceText q = Some s"
    "\<not> namesCarrier ''dhl'' q" "\<not> namesCarrier ''fedex'' q"
  shows "allowed P q = Inr (s \<in> set JAPAN_POST_SERVICES)"
proof -
  from assms(1) obtain c where c: "carrierText q = Some c"
    and j: "str_includes c ''japan post'' \<or> str_includes c ''japanpost''"
    by (auto simp: isJapanPost_def namesCarrier_def split: option.splits)
  from assms(3,4) c have n: "\<not> str_includes c ''dhl''" "\<not> str_includes c ''fedex''"
    by (simp_all add: namesCarrier_def)
  from assms(2) have "ToStringOpt P (get q ''service'') = Inr s"
    by (simp add: serviceText_Some ToStringOpt_def)
  with j n show ?thesis
    by (simp only: allowed_text[OF c] if_False if_True bind_Inr)
qed

lemma allowed_unrelated:
  assumes "carrierText q = Some c" "\<not> str_includes c ''dhl''" "\<not> str_includes c ''fedex''"
    "\<not> str_includes c ''japan post''" "\<not> str_includes c ''japanpost''"
  shows "allowed P q = Inr False"
  using assms(2-5) by (simp only: allowed_text[OF assms(1)] if_False simp_thms)

lemma filterM_decided:
  assumes "\<forall>q\<in>set raw. f q = Inr (keep q)"
  shows "filterM f raw = Inr (filter keep raw)"
  using assms by (induction raw) simp_all


lemma allowed_japanPost_listed:
  assumes "isJapanPost q" "serviceText q = Some s" "s \<in> set JAPAN_POST_SERVICES"
  shows "allowed P q = Inr True"
proof (cases "namesCarrier ''dhl'' q \<or> namesCarrier ''fedex'' q")
  case True
  then show ?thesis by (rule allowed_named)
next
  case False
  with assms show ?thesis by (simp add: allowed_japanPost)
qed

text \<open>
  C6 (as amended). Take a quote that names \<open>dhl\<close> and one that names \<open>fedex\<close> (whatever
  their service), two Japan Post quotes whose service is one of the three allowed codes,
  a Japan Post quote whose service is not and whose carrier names neither \<open>dhl\<close> nor
  \<open>fedex\<close>, and a quote whose carrier names none of the four. Of a list made of these
  six, in any order, the filter keeps the first four, in their order, and drops the
  other two.
\<close>

theorem allow_list:
  assumes dhl: "namesCarrier ''dhl'' dhl"
    and fedex: "namesCarrier ''fedex'' fedex"
    and jp1: "isJapanPost jp1" "serviceText jp1 = Some s1" "s1 \<in> set JAPAN_POST_SERVICES"
    and jp2: "isJapanPost jp2" "serviceText jp2 = Some s2" "s2 \<in> set JAPAN_POST_SERVICES"
    and bad: "isJapanPost bad" "\<not> namesCarrier ''dhl'' bad" "\<not> namesCarrier ''fedex'' bad"
             "serviceText bad = Some s3" "s3 \<notin> set JAPAN_POST_SERVICES"
    and other: "carrierText other = Some c" "\<not> str_includes c ''dhl''"
             "\<not> str_includes c ''fedex''" "\<not> str_includes c ''japan post''"
             "\<not> str_includes c ''japanpost''"
    and raw: "set raw = {dhl, fedex, jp1, jp2, bad, other}"
  shows "filterM (allowed P) raw = Inr (filter (\<lambda>q. q \<in> {dhl, fedex, jp1, jp2}) raw)
       \<and> set (filter (\<lambda>q. q \<in> {dhl, fedex, jp1, jp2}) raw) = {dhl, fedex, jp1, jp2}
       \<and> bad \<notin> {dhl, fedex, jp1, jp2} \<and> other \<notin> {dhl, fedex, jp1, jp2}"
proof -
  have yes: "allowed P q = Inr True" if "q \<in> {dhl, fedex, jp1, jp2}" for q
  proof -
    from that consider "q = dhl" | "q = fedex" | "q = jp1" | "q = jp2" by blast
    then show ?thesis
    proof cases
      case 1 with dhl show ?thesis by (simp add: allowed_named)
    next
      case 2 with fedex show ?thesis by (simp add: allowed_named)
    next
      case 3 with jp1 show ?thesis by (simp add: allowed_japanPost_listed)
    next
      case 4 with jp2 show ?thesis by (simp add: allowed_japanPost_listed)
    qed
  qed
  have nb: "allowed P bad = Inr False"
    using allowed_japanPost[OF bad(1,4,2,3)] bad(5) by simp
  have no: "allowed P other = Inr False"
    using other by (rule allowed_unrelated)
  have b: "bad \<notin> {dhl, fedex, jp1, jp2}"
    using yes[of bad] nb by auto
  have o: "other \<notin> {dhl, fedex, jp1, jp2}"
    using yes[of other] no by auto
  have "allowed P q = Inr (q \<in> {dhl, fedex, jp1, jp2})" if "q \<in> set raw" for q
  proof (cases "q \<in> {dhl, fedex, jp1, jp2}")
    case True
    then show ?thesis by (simp only: yes simp_thms)
  next
    case False
    with that raw have "q = bad \<or> q = other" by blast
    with False nb no show ?thesis by auto
  qed
  then have "filterM (allowed P) raw = Inr (filter (\<lambda>q. q \<in> {dhl, fedex, jp1, jp2}) raw)"
    by (intro filterM_decided) blast
  moreover have "set (filter (\<lambda>q. q \<in> {dhl, fedex, jp1, jp2}) raw) = {dhl, fedex, jp1, jp2}"
    unfolding set_filter raw by blast
  ultimately show ?thesis using b o by blast
qed


lemma sixQuotes_classes:
  "namesCarrier ''dhl'' (quote ''DHL Express'' ''dhl_express_worldwide'')"
  "namesCarrier ''fedex'' (quote ''FedEx'' ''fedex_international_economy'')"
  "isJapanPost (quote ''Japan Post'' ''japanpost_ems'')"
  "isJapanPost (quote ''JAPANPOST'' ''japanpost_smallpacket_air'')"
  "isJapanPost (quote ''Japan Post'' ''japanpost_sal'')"
  "\<not> namesCarrier ''dhl'' (quote ''Japan Post'' ''japanpost_sal'')"
  "\<not> namesCarrier ''fedex'' (quote ''Japan Post'' ''japanpost_sal'')"
  "carrierText (quote ''UPS'' ''ups_saver'') = Some ''ups''"
  by code_simp+

lemma serviceText_quote: "serviceText (quote c s) = Some s"
  by (simp add: serviceText_def quote_def)

theorem allow_list_witness:
  "filterM (allowed plain) sixQuotes =
     Inr [quote ''Japan Post'' ''japanpost_ems'',
          quote ''DHL Express'' ''dhl_express_worldwide'',
          quote ''JAPANPOST'' ''japanpost_smallpacket_air'',
          quote ''FedEx'' ''fedex_international_economy'']"
proof -
  have raw: "set sixQuotes =
    {quote ''DHL Express'' ''dhl_express_worldwide'',
     quote ''FedEx'' ''fedex_international_economy'',
     quote ''Japan Post'' ''japanpost_ems'',
     quote ''JAPANPOST'' ''japanpost_smallpacket_air'',
     quote ''Japan Post'' ''japanpost_sal'',
     quote ''UPS'' ''ups_saver''}"
    by (auto simp: sixQuotes_def)
  have c: "\<not> str_includes ''ups'' ''dhl''" "\<not> str_includes ''ups'' ''fedex''"
    "\<not> str_includes ''ups'' ''japan post''" "\<not> str_includes ''ups'' ''japanpost''"
    by simp_all
  have l: "''japanpost_ems'' \<in> set JAPAN_POST_SERVICES"
    "''japanpost_smallpacket_air'' \<in> set JAPAN_POST_SERVICES"
    "''japanpost_sal'' \<notin> set JAPAN_POST_SERVICES"
    by (simp_all add: JAPAN_POST_SERVICES_def)
  from allow_list [OF sixQuotes_classes(1,2,3) serviceText_quote l(1)
      sixQuotes_classes(4) serviceText_quote l(2)
      sixQuotes_classes(5,6,7) serviceText_quote l(3) sixQuotes_classes(8) c raw, of plain]
  show ?thesis
    by (simp add: sixQuotes_def quote_def)
qed

text \<open>
  C6 as stated fails: the tests for \<open>dhl\<close> and \<open>fedex\<close> come first (lines 174 and 175),
  so a Japan Post quote whose carrier name also contains \<open>dhl\<close> is kept whatever its
  service. Of the six quotes below the filter keeps five, the Japan Post quote with the
  service \<open>japanpost_sal\<close> among them.
\<close>

theorem disallowed_japan_post_kept:
  "isJapanPost (quote ''Japan Post (DHL handover)'' ''japanpost_sal'')
   \<and> serviceText (quote ''Japan Post (DHL handover)'' ''japanpost_sal'') = Some ''japanpost_sal''
   \<and> ''japanpost_sal'' \<notin> set JAPAN_POST_SERVICES
   \<and> namesCarrier ''dhl'' (quote ''DHL Express'' ''dhl_express_worldwide'')
   \<and> namesCarrier ''fedex'' (quote ''FedEx'' ''fedex_international_economy'')
   \<and> isJapanPost (quote ''Japan Post'' ''japanpost_ems'')
   \<and> isJapanPost (quote ''JAPANPOST'' ''japanpost_smallpacket_air'')
   \<and> carrierText (quote ''UPS'' ''ups_saver'') = Some ''ups''
   \<and> filterM (allowed plain) handoverQuotes =
       Inr [quote ''Japan Post'' ''japanpost_ems'',
            quote ''Japan Post (DHL handover)'' ''japanpost_sal'',
            quote ''DHL Express'' ''dhl_express_worldwide'',
            quote ''JAPANPOST'' ''japanpost_smallpacket_air'',
            quote ''FedEx'' ''fedex_international_economy'']"
  by code_simp

section \<open>Properties of the gap-fill\<close>

lemma annotate_Inr:
  assumes "annotate P data = Inr r"
  obtains kept apiErrs where
    "filterM (allowed P) (rawRates data) = Inr kept"
    "mapM (normalize P) kept = Inr (rates r)"
    "apiErrors P (rawRates data) = Inr apiErrs"
    "errors r = apiErrs @ gapMessages (rates r)"
proof -
  from assms obtain kept where k: "filterM (allowed P) (rawRates data) = Inr kept"
    by (auto simp: annotate_def Let_def bind_eq_Inr)
  with assms obtain rs where n: "mapM (normalize P) kept = Inr rs"
    by (auto simp: annotate_def Let_def bind_eq_Inr)
  with assms k obtain apiErrs where a: "apiErrors P (rawRates data) = Inr apiErrs"
    by (auto simp: annotate_def Let_def bind_eq_Inr)
  from assms k n a have "r = \<lparr>rates = rs,
      errors = gapFill JAPAN_POST_SERVICES (japanPostServices rs) apiErrs\<rparr>"
    by (simp add: annotate_def Let_def)
  then have "rates r = rs" "errors r = apiErrs @ gapMessages (rates r)"
    by (simp_all add: gapFill_append gapMessages_def)
  with k n a that show thesis by simp
qed

lemma missingServiceMessage_distinct:
  "missingServiceMessage ''japanpost_ems'' \<noteq> missingServiceMessage ''japanpost_epacket_light''"
  "missingServiceMessage ''japanpost_ems'' \<noteq> missingServiceMessage ''japanpost_smallpacket_air''"
  "missingServiceMessage ''japanpost_epacket_light'' \<noteq> missingServiceMessage ''japanpost_smallpacket_air''"
  by (simp_all add: missingServiceMessage_def serviceLabel_def)

lemma gapMessages_count:
  assumes "s \<in> set JAPAN_POST_SERVICES"
  shows "count_list (gapMessages rs) (missingServiceMessage s)
     = (if s \<in> set (japanPostServices rs) then 0 else 1)"
  using assms missingServiceMessage_distinct missingServiceMessage_distinct[symmetric]
  by (auto simp: gapMessages_def JAPAN_POST_SERVICES_def)

text \<open>
  C7 (as amended). When the lookup produces a result from a payload, its error list is
  the API-reported messages, in the order met, followed by the gap-fill messages; and for
  each of the three required services the gap-fill part holds that service's message
  once if no accepted quote whose carrier name contains \<open>japan\<close> carries the service, and
  not at all if one does.
\<close>

theorem gap_fill:
  assumes "annotate P data = Inr r"
  shows "(\<exists>apiErrs. apiErrors P (rawRates data) = Inr apiErrs
            \<and> errors r = apiErrs @ gapMessages (rates r))
       \<and> (\<forall>s\<in>set JAPAN_POST_SERVICES.
            count_list (gapMessages (rates r)) (missingServiceMessage s)
              = (if s \<in> set (japanPostServices (rates r)) then 0 else 1))"
proof -
  from assms obtain apiErrs where "apiErrors P (rawRates data) = Inr apiErrs"
    "errors r = apiErrs @ gapMessages (rates r)"
    by (rule annotate_Inr)
  then show ?thesis
    by (auto simp only: gapMessages_count)
qed


lemma annotate_refused: "annotate plain refusedPayload = Inr refusedResult"
  by code_simp

lemma apiErrors_refused: "apiErrors plain (rawRates refusedPayload) = Inr [''no rate'']"
  by code_simp

theorem gap_fill_witness:
  "annotate plain refusedPayload = Inr refusedResult
   \<and> errors refusedResult = [''no rate''] @ gapMessages (rates refusedResult)
   \<and> count_list (gapMessages (rates refusedResult)) (missingServiceMessage ''japanpost_ems'') = 0
   \<and> count_list (gapMessages (rates refusedResult))
        (missingServiceMessage ''japanpost_epacket_light'') = 1"
proof -
  have j: "japanPostServices (rates refusedResult) = [''japanpost_ems'']"
    by code_simp
  from gap_fill [OF annotate_refused] show ?thesis
    by (simp add: annotate_refused apiErrors_refused j JAPAN_POST_SERVICES_def)
qed

text \<open>
  C7 as stated fails: the one accepted quote here carries \<open>japanpost_ems\<close>, under a
  carrier whose name does not contain \<open>japan\<close>, and the message for that service is added
  all the same.
\<close>

theorem gap_fill_ignores_other_carriers:
  "annotate plain (JArr [quote ''DHL'' ''japanpost_ems''])
     = Inr \<lparr>rates = [summary ''DHL'' ''japanpost_ems''],
            errors = [missingServiceMessage ''japanpost_ems'',
                      missingServiceMessage ''japanpost_epacket_light'',
                      missingServiceMessage ''japanpost_smallpacket_air'']\<rparr>"
  by code_simp

section \<open>Failures in the rate pipeline\<close>

lemma parse_parcelRequest: "parseRequest plain parcelRequest = Inr (Some (usParcel, ukParcel))"
  by code_simp

lemma POST_valid:
  assumes "truthy body" "parseRequest P body = Inr (Some (us, uk))"
  shows "POST P apiKey net nowUS nowUK usFirst (Some body) w
     = bothDestinations P apiKey net nowUS nowUK usFirst us uk w"
  using assms by (simp add: POST_def)

lemma afterMiss_rejected:
  assumes "apiKey = Some k" "k \<noteq> []" "net (requestBody p) = Rejected"
  shows "afterMiss P apiKey net now p = Inl FetchRejected"
  using assms by (simp add: afterMiss_def fetchRates_def)

lemma fetch_rejection_propagates:
  assumes "fst (cacheLookup P now p (cache w)) = None"
    "apiKey = Some k" "k \<noteq> []" "net (requestBody p) = Rejected"
  shows "fst (getRatesForDestination P apiKey net now p w) = Inl FetchRejected"
proof -
  from assms(1) have l: "cacheLookup P now p (cache w) = (None, pruneCache now (cache w))"
    by (metis cacheLookup_snd prod.collapse)
  from assms(2-4) have "afterMiss P apiKey net now p = Inl FetchRejected"
    by (rule afterMiss_rejected)
  then show ?thesis
    unfolding getRates_miss[OF l] by simp
qed

text \<open>
  C1, at the input where it fails: the access token is set, the request is valid and the
  outbound \<open>fetch\<close> rejects. The rejection leaves the lookup, and through \<open>Promise.all\<close>
  the handler, instead of becoming an error string in a result.
\<close>

theorem fetch_rejection_escapes:
  "fst (getRatesForDestination plain (Some ''key'') (alwaysRespond Rejected) 1000 usParcel
          emptyWorld) = Inl FetchRejected
   \<and> fst (POST plain (Some ''key'') (alwaysRespond Rejected) 1000 1000 True
          (Some parcelRequest) emptyWorld) = Inl FetchRejected"
  by code_simp


lemma missing_token_as_data:
  assumes "fst (cacheLookup P now p (cache w)) = None" "apiKey = None \<or> apiKey = Some []"
  shows "fst (getRatesForDestination P apiKey net now p w)
     = Inr \<lparr>rates = [],
            errors = [failureText (country p) (numToString P (Fin 500)) missingKeyMessage]\<rparr>"
proof -
  from assms(1) have l: "cacheLookup P now p (cache w) = (None, pruneCache now (cache w))"
    by (metis cacheLookup_snd prod.collapse)
  from assms(2) show ?thesis
    unfolding getRates_miss[OF l] by (auto simp: afterMiss_def fetchRates_def)
qed

lemma POST_bad_request:
  "fst (POST P apiKey net nowUS nowUK usFirst request w) = Inr (BadRequest m) \<longleftrightarrow>
     (\<not> truthy (case request of None \<Rightarrow> JNull | Some b \<Rightarrow> b) \<and> m = invalidRequestMessage)
   \<or> (truthy (case request of None \<Rightarrow> JNull | Some b \<Rightarrow> b)
       \<and> parseRequest P (case request of None \<Rightarrow> JNull | Some b \<Rightarrow> b) = Inr None
       \<and> m = invalidSizeMessage)"
  by (auto simp: POST_def bothDestinations_def Let_def split: sum.splits option.splits prod.splits)

text \<open>
  C2, at the input where it fails: the US call is answered with status 500 and a body
  whose \<open>message\<close> is an object with an own \<open>toString\<close> property, the UK call with
  status 200 and one DHL quote. Building the error string throws, the handler rejects,
  and the UK result (which the UK lookup alone does produce) is lost.
\<close>

theorem isolation_lost_on_shadowed_message:
  "fst (POST plain (Some ''key'')
         (respondByCountry (Response 500 (Some (JObj [(''message'', shadowed)])))
                           (Response 200 (Some (JArr [quote ''DHL'' ''dhl_express_worldwide'']))))
         1000 1000 True (Some parcelRequest) emptyWorld) = Inl TypeError
   \<and> fst (getRatesForDestination plain (Some ''key'')
         (respondByCountry (Response 500 (Some (JObj [(''message'', shadowed)])))
                           (Response 200 (Some (JArr [quote ''DHL'' ''dhl_express_worldwide'']))))
         1000 ukParcel emptyWorld) = Inr dhlResult"
  by code_simp

lemma afterMiss_failure:
  assumes "apiKey = Some k" "k \<noteq> []" "net (requestBody p) = Response status body"
    "\<not> response_ok status"
    "ToString P (nullishOr (get (case body of None \<Rightarrow> JNull | Some d \<Rightarrow> d) ''message'')
        (nullishOr (get (case body of None \<Rightarrow> JNull | Some d \<Rightarrow> d) ''error'')
           (JStr callFailedMessage))) = Inr m"
  shows "afterMiss P apiKey net now p
     = Inr (\<lparr>rates = [],
             errors = [failureText (country p) (numToString P (Fin (of_nat status))) m]\<rparr>, None)"
  using assms by (simp add: afterMiss_def fetchRates_def Let_def)

lemma afterMiss_success:
  assumes "apiKey = Some k" "k \<noteq> []" "net (requestBody p) = Response status body"
    "response_ok status"
    "annotate P (case body of None \<Rightarrow> JNull | Some d \<Rightarrow> d) = Inr r"
  shows "afterMiss P apiKey net now p
     = Inr (r, Some \<lparr>expiresAt = now + CACHE_TTL_MS, cvalue = r\<rparr>)"
  using assms by (simp add: afterMiss_def fetchRates_def Let_def)

text \<open>
  Apart from that conversion the two destinations are independent: when the message of
  the failed US call has a text, the handler answers with the US failure as data and with
  the UK result as the UK call alone determines it.
\<close>

lemma destination_isolation:
  assumes req: "truthy body" "parseRequest P body = Inr (Some (us, uk))"
    and miss: "fst (cacheLookup P nowUS us (cache w)) = None"
      "fst (cacheLookup P nowUK uk (pruneCache nowUS (cache w))) = None"
    and key: "apiKey = Some k" "k \<noteq> []"
    and usFails: "net (requestBody us) = Response status body'" "\<not> response_ok status"
      "ToString P (nullishOr (get (case body' of None \<Rightarrow> JNull | Some d \<Rightarrow> d) ''message'')
        (nullishOr (get (case body' of None \<Rightarrow> JNull | Some d \<Rightarrow> d) ''error'')
           (JStr callFailedMessage))) = Inr m"
    and ukSucceeds: "net (requestBody uk) = Response status'' body''" "response_ok status''"
      "annotate P (case body'' of None \<Rightarrow> JNull | Some d \<Rightarrow> d) = Inr ukResult"
  shows "fst (POST P apiKey net nowUS nowUK usFirst (Some body) w)
     = Inr (Ok \<lparr>rates = [],
                 errors = [failureText ''US'' (numToString P (Fin (of_nat status))) m]\<rparr>
               ukResult)"
proof -
  from req(2) have c: "country us = ''US''"
    by (auto simp: parseRequest_def bind_eq_Inr split: if_splits)
  have l1: "cacheLookup P nowUS us (cache w) = (None, pruneCache nowUS (cache w))"
    using miss(1) by (metis cacheLookup_snd prod.collapse)
  have l2: "cacheLookup P nowUK uk (pruneCache nowUS (cache w))
     = (None, pruneCache nowUK (pruneCache nowUS (cache w)))"
    using miss(2) by (metis cacheLookup_snd prod.collapse)
  have a1: "afterMiss P apiKey net nowUS us
     = Inr (\<lparr>rates = [],
             errors = [failureText ''US'' (numToString P (Fin (of_nat status))) m]\<rparr>, None)"
    using key usFails c by (simp add: afterMiss_def fetchRates_def Let_def)
  have a2: "afterMiss P apiKey net nowUK uk
     = Inr (ukResult, Some \<lparr>expiresAt = nowUK + CACHE_TTL_MS, cvalue = ukResult\<rparr>)"
    using key ukSucceeds by (simp add: afterMiss_def fetchRates_def Let_def)
  show ?thesis
    unfolding POST_valid[OF req]
    by (simp add: bothDestinations_def l1 l2 a1 a2 Let_def)
qed


text \<open>
  C10, at the input where it fails: a quote that the filter accepts (its carrier is
  \<open>DHL\<close>) and whose \<open>service\<close>, or \<open>price\<close>, is an object with an own \<open>toString\<close>
  property. The conversion throws, and the lookup rejects.
\<close>

theorem normalize_throws_on_shadowed_field:
  "allowed plain (JObj [(''carrier'', JStr ''DHL''), (''service'', shadowed)]) = Inr True
   \<and> normalize plain (JObj [(''carrier'', JStr ''DHL''), (''service'', shadowed)]) = Inl TypeError
   \<and> normalize plain (JObj [(''carrier'', JStr ''DHL''), (''price'', shadowed)]) = Inl TypeError
   \<and> fst (getRatesForDestination plain (Some ''key'')
         (alwaysRespond (Response 200
            (Some (JArr [JObj [(''carrier'', JStr ''DHL''), (''service'', shadowed)]]))))
         1000 usParcel emptyWorld) = Inl TypeError"
  by code_simp

lemma ToString_primitive:
  "ToString P JNull = Inr ''null''"
  "ToString P (JBool b) = Inr (if b then ''true'' else ''false'')"
  "ToString P (JNum n) = Inr (numToString P n)"
  "ToString P (JStr t) = Inr t"
  by simp_all

text \<open>
  Where every coerced field is a string (a number, for the price), absent or \<open>null\<close>,
  the summary is as described: the field itself, and the empty string or 0 by default.
\<close>

lemma normalize_strings:
  assumes "get rate ''carrier'' = Some (JStr c) \<or> (nullishOr (get rate ''carrier'') (JStr []) = JStr [] \<and> c = [])"
    and "get rate ''service'' = Some (JStr s) \<or> (nullishOr (get rate ''service'') (JStr []) = JStr [] \<and> s = [])"
    and "get rate ''currency'' = Some (JStr cu) \<or> (nullishOr (get rate ''currency'') (JStr []) = JStr [] \<and> cu = [])"
    and "get rate ''price'' = Some (JNum n) \<or> (nullishOr (get rate ''price'') (JNum (Fin 0)) = JNum (Fin 0) \<and> n = Fin 0)"
  shows "normalize P rate =
     Inr \<lparr>carrier = c, service = s, price = n, currency = cu,
          estimated_delivery_dates = nullishOr (get rate ''estimated_delivery_dates'') JNull,
          carrier_id = nullishOr (get rate ''carrier_id'') JNull\<rparr>"
proof -
  from assms(1) have 1: "ToString P (nullishOr (get rate ''carrier'') (JStr [])) = Inr c"
    by (auto simp: nullishOr_def)
  from assms(2) have 2: "ToString P (nullishOr (get rate ''service'') (JStr [])) = Inr s"
    by (auto simp: nullishOr_def)
  from assms(3) have 3: "ToString P (nullishOr (get rate ''currency'') (JStr [])) = Inr cu"
    by (auto simp: nullishOr_def)
  from assms(4) have 4: "ToNumber P (nullishOr (get rate ''price'') (JNum (Fin 0))) = Inr n"
    by (auto simp: nullishOr_def)
  show ?thesis
    by (simp add: normalize_def 1 2 3 4)
qed

lemma nullishOr_absent:
  "nullishOr None d = d" "nullishOr (Some JNull) d = d"
  by (simp_all add: nullishOr_def)

text \<open>
  C9. \<open>fetchExchangeRate\<close> returns 145 when the \<open>fetch\<close> rejects, when the body cannot
  be parsed, and when the body has no \<open>rates.JPY\<close> (absent or \<open>null\<close>). Otherwise it
  returns \<open>rates.JPY\<close> converted to a number: the number itself when it is one, and 145
  again if the conversion throws.
\<close>

theorem exchange_rate_fallback:
  "fetchExchangeRate P Rejected = Fin 145
   \<and> fetchExchangeRate P (Response status None) = Fin 145
   \<and> (optGet (get data ''rates'') ''JPY'' = None \<or> optGet (get data ''rates'') ''JPY'' = Some JNull
        \<longrightarrow> fetchExchangeRate P (Response status (Some data)) = Fin 145)
   \<and> (optGet (get data ''rates'') ''JPY'' = Some (JNum n)
        \<longrightarrow> fetchExchangeRate P (Response status (Some data)) = n)
   \<and> (optGet (get data ''rates'') ''JPY'' = Some v \<and> v \<noteq> JNull
        \<longrightarrow> fetchExchangeRate P (Response status (Some data))
            = (case ToNumber P v of Inl e \<Rightarrow> Fin 145 | Inr x \<Rightarrow> x))"
  by (auto simp: fetchExchangeRate_def nullishOr_def split: json.splits)

theorem exchange_rate_fallback_witness:
  "fetchExchangeRate plain (Response 200 (Some (JObj [(''success'', JBool False)]))) = Fin 145
   \<and> fetchExchangeRate plain
        (Response 200 (Some (JObj [(''rates'', JObj [(''JPY'', JNum (Fin (601 / 4)))])])))
      = Fin (601 / 4)
   \<and> fetchExchangeRate plain
        (Response 200 (Some (JObj [(''rates'', JObj [(''JPY'', JStr ''150'')])])))
      = Fin 150"
proof -
  have n: "stringToNumber plain ''150'' = Fin 150"
    by code_simp
  show ?thesis
    using exchange_rate_fallback [of plain 200 "JObj [(''success'', JBool False)]" n v]
      exchange_rate_fallback [of plain 200 "JObj [(''rates'', JObj [(''JPY'', JNum (Fin (601 / 4)))])]"
        "Fin (601 / 4)" v]
      exchange_rate_fallback [of plain 200 "JObj [(''rates'', JObj [(''JPY'', JStr ''150'')])]"
        n "JStr ''150''"]
    by (simp add: optGet_def n)
qed

section \<open>Properties of the price calculation\<close>

lemma bitlen_powi:
  assumes "0 < p"
  shows "(2::rat) powi (bitlen p - 1) \<le> of_int p" "of_int p < (2::rat) powi bitlen p"
proof -
  from assms have b: "1 \<le> bitlen p" by (auto simp: bitlen_alt_def)
  have "2 ^ nat (bitlen p - 1) \<le> p" "p < 2 ^ nat (bitlen p)"
    using bitlen_bounds[OF assms] by simp_all
  then have "(of_int (2 ^ nat (bitlen p - 1)) :: rat) \<le> of_int p"
    "(of_int p :: rat) < of_int (2 ^ nat (bitlen p))"
    by (simp_all only: of_int_le_iff of_int_less_iff)
  with b show "(2::rat) powi (bitlen p - 1) \<le> of_int p" "of_int p < (2::rat) powi bitlen p"
    by (simp_all add: power_int_nonneg_exp)
qed


lemma quotient_powi_bounds:
  assumes "0 < p" "0 < q"
  shows "(2::rat) powi (bitlen p - bitlen q - 1) < of_int p / of_int q"
    and "of_int p / of_int q < (2::rat) powi (bitlen p - bitlen q + 1)"
proof -
  let ?P = "of_int p :: rat" and ?Q = "of_int q :: rat"
  have pos: "0 < ?P" "0 < ?Q" using assms by simp_all
  have two: "0 < (2::rat) powi k" for k by simp
  have "(2::rat) powi (bitlen p - bitlen q - 1) = 2 powi (bitlen p - 1) / 2 powi bitlen q"
    using power_int_diff[of "2::rat" "bitlen p - 1" "bitlen q"] by (simp add: algebra_simps)
  also have "\<dots> \<le> ?P / 2 powi bitlen q"
    using bitlen_powi(1)[OF assms(1)] two by (simp add: divide_right_mono)
  also have "\<dots> < ?P / ?Q"
    using bitlen_powi(2)[OF assms(2)] pos by (simp add: divide_strict_left_mono)
  finally show "(2::rat) powi (bitlen p - bitlen q - 1) < ?P / ?Q" .
  have "?P / ?Q < 2 powi bitlen p / ?Q"
    using bitlen_powi(2)[OF assms(1)] pos by (simp add: divide_strict_right_mono)
  also have "\<dots> \<le> 2 powi bitlen p / 2 powi (bitlen q - 1)"
    using bitlen_powi(1)[OF assms(2)] two[of "bitlen p"] two[of "bitlen q - 1"]
    by (intro frac_le) simp_all
  also have "\<dots> = (2::rat) powi (bitlen p - bitlen q + 1)"
    using power_int_diff[of "2::rat" "bitlen p" "bitlen q - 1"] by (simp add: algebra_simps)
  finally show "?P / ?Q < (2::rat) powi (bitlen p - bitlen q + 1)" .
qed

text \<open>\<open>floorLog2\<close> is the integer part of the binary logarithm.\<close>

lemma floorLog2_bounds:
  assumes "0 < x"
  shows "2 powi floorLog2 x \<le> x \<and> x < 2 powi (floorLog2 x + 1)"
proof -
  obtain p q where pq: "quotient_of x = (p, q)" by (cases "quotient_of x")
  then have q: "0 < q" and x: "x = of_int p / of_int q"
    by (auto dest: quotient_of_denom_pos quotient_of_div)
  with assms have p: "0 < p"
    by (simp add: zero_less_divide_iff)
  define d where "d = bitlen p - bitlen q"
  have lo: "2 powi (d - 1) < x" and hi: "x < 2 powi (d + 1)"
    using quotient_powi_bounds[OF p q] by (simp_all add: x d_def)
  have f: "floorLog2 x = (if 2 powi d \<le> x then d else d - 1)"
    by (simp add: floorLog2_def pq d_def Let_def)
  show ?thesis
  proof (cases "2 powi d \<le> x")
    case True
    with f hi show ?thesis by simp
  next
    case False
    with f lo show ?thesis by simp
  qed
qed

lemma floorLog2_unique:
  assumes "0 < x" "2 powi k \<le> x" "x < 2 powi (k + 1)"
  shows "floorLog2 x = k"
proof -
  from floorLog2_bounds[OF assms(1)]
  have b: "2 powi floorLog2 x \<le> x" "x < 2 powi (floorLog2 x + 1)" by simp_all
  have less: "m < n" if "(2::rat) powi m < 2 powi n" for m n :: int
  proof (rule ccontr)
    assume "\<not> m < n"
    then have "(2::rat) powi n \<le> 2 powi m"
      by (intro power_int_increasing) simp_all
    with that show False by simp
  qed
  have "(2::rat) powi k < 2 powi (floorLog2 x + 1)" using assms(2) b(2) by simp
  then have 1: "k < floorLog2 x + 1" by (rule less)
  have "(2::rat) powi floorLog2 x < 2 powi (k + 1)" using assms(3) b(1) by simp
  then have 2: "floorLog2 x < k + 1" by (rule less)
  from 1 2 show ?thesis by simp
qed


lemma roundHalfEven_range:
  assumes "of_int a \<le> z" "z \<le> of_int b"
  shows "a \<le> roundHalfEven z \<and> roundHalfEven z \<le> b"
proof -
  have lo: "a \<le> \<lfloor>z\<rfloor>" using assms(1) by (simp add: le_floor_iff)
  have hi: "\<lfloor>z\<rfloor> \<le> b" using assms(2) by (simp add: floor_le_iff)
  have up: "\<lfloor>z\<rfloor> + 1 \<le> b" if "z \<noteq> of_int \<lfloor>z\<rfloor>"
  proof -
    have "of_int \<lfloor>z\<rfloor> \<le> z" by (rule of_int_floor_le)
    with that have "of_int \<lfloor>z\<rfloor> < z" by (simp only: less_le not_sym simp_thms)
    with assms(2) have "(of_int \<lfloor>z\<rfloor> :: rat) < of_int b" by simp
    then show ?thesis by simp
  qed
  show ?thesis
    using lo hi up by (auto simp: roundHalfEven_def Let_def)
qed

text \<open>
  Rounding, given the exponent: for \<open>x\<close> between \<open>2\<close> to the power \<open>e + 52\<close> and
  \<open>2\<close> to the power \<open>e + 53\<close>, the double is the nearest multiple of \<open>2\<close> to the
  power \<open>e\<close>.
\<close>

lemma toDouble_at:
  assumes x: "x \<noteq> 0"
    and lo: "2 powi (e + 52) \<le> \<bar>x\<bar>" and hi: "\<bar>x\<bar> < 2 powi (e + 53)"
    and e: "- 1074 \<le> e" "e \<le> 970"
  shows "toDouble x = Fin (of_int (roundHalfEven (x / 2 powi e)) * 2 powi e)"
proof -
  have pe: "0 < (2::rat) powi e" by simp
  from x have "0 < \<bar>x\<bar>" by simp
  from floorLog2_unique[OF this lo] hi have f: "floorLog2 \<bar>x\<bar> = e + 52"
    by (simp add: add.commute add.left_commute)
  define z where "z = x / 2 powi e"
  have "\<bar>z\<bar> = \<bar>x\<bar> / 2 powi e" using pe by (simp add: z_def)
  also have "\<dots> < 2 powi (e + 53) / 2 powi e"
    using hi pe by (simp add: divide_strict_right_mono)
  also have "\<dots> = 2 ^ 53"
    using power_int_add[of "2::rat" e 53] by simp
  finally have "\<bar>z\<bar> < 2 ^ 53" .
  then have "of_int (- (2 ^ 53)) \<le> z" "z \<le> of_int (2 ^ 53)"
    by (simp_all add: abs_less_iff less_imp_le)
  from roundHalfEven_range[OF this]
  have "\<bar>roundHalfEven z\<bar> \<le> 2 ^ 53" by (simp add: abs_le_iff)
  then have "\<bar>of_int (roundHalfEven z) :: rat\<bar> \<le> 2 ^ 53"
    by (metis of_int_abs of_int_le_iff of_int_numeral of_int_power)
  then have "\<bar>of_int (roundHalfEven z) * 2 powi e\<bar> \<le> 2 ^ 53 * (2::rat) powi e"
    using pe by (simp add: abs_mult mult_right_mono)
  also have "\<dots> \<le> 2 ^ 53 * (2::rat) powi 970"
    using e(2) by (intro mult_left_mono power_int_increasing) simp_all
  also have "\<dots> < 2 ^ 1024" by simp
  finally have y: "\<not> 2 ^ 1024 \<le> \<bar>of_int (roundHalfEven (x / 2 powi e)) * (2::rat) powi e\<bar>"
    by (simp add: z_def)
  from e(1) have m: "max (e + 52 - 52) (- 1074) = e" by simp
  show ?thesis
    unfolding toDouble_def f Let_def m using x y by simp
qed

lemma toDouble_scaled_up:
  assumes "2 ^ 52 \<le> \<bar>x\<bar> * 2 ^ n" "\<bar>x\<bar> * 2 ^ n < 2 ^ 53" "n \<le> 1074"
  shows "toDouble x = Fin (of_int (roundHalfEven (x * 2 ^ n)) / 2 ^ n)"
proof -
  have p: "(2::rat) powi (- int n) = 1 / 2 ^ n"
    by (simp add: power_int_minus_divide)
  have a: "(2::rat) powi (52 - int n) = 2 ^ 52 / 2 ^ n"
    "(2::rat) powi (53 - int n) = 2 ^ 53 / 2 ^ n"
    using power_int_diff[of "2::rat" 52 "int n"] power_int_diff[of "2::rat" 53 "int n"]
    by simp_all
  from assms(1) have x: "x \<noteq> 0" by auto
  have "toDouble x = Fin (of_int (roundHalfEven (x / 2 powi (- int n))) * 2 powi (- int n))"
    using assms x by (intro toDouble_at) (simp_all add: a field_simps)
  then show ?thesis by (simp add: p)
qed

lemma toDouble_scaled_down:
  assumes "2 ^ 52 \<le> \<bar>x\<bar> / 2 ^ n" "\<bar>x\<bar> / 2 ^ n < 2 ^ 53" "n \<le> 970"
  shows "toDouble x = Fin (of_int (roundHalfEven (x / 2 ^ n)) * 2 ^ n)"
proof -
  have a: "(2::rat) powi (int n + 52) = 2 ^ 52 * 2 ^ n"
    "(2::rat) powi (int n + 53) = 2 ^ 53 * 2 ^ n"
    using power_int_add[of "2::rat" "int n" 52] power_int_add[of "2::rat" "int n" 53]
    by (simp_all add: mult.commute)
  from assms(1) have x: "x \<noteq> 0" by auto
  have "toDouble x = Fin (of_int (roundHalfEven (x / 2 powi (int n))) * 2 powi (int n))"
    using assms x by (intro toDouble_at) (simp_all add: a field_simps)
  then show ?thesis by simp
qed


lemma roundHalfEven_fraction:
  assumes "0 < q"
  shows "roundHalfEven (of_int p / of_int q) =
     (if 2 * (p mod q) < q then p div q
      else if q < 2 * (p mod q) then p div q + 1
      else if even (p div q) then p div q else p div q + 1)"
proof -
  define n r where "n = p div q" and "r = p mod q"
  have q: "0 < rat_of_int q" using assms by simp
  have f: "\<lfloor>rat_of_int p / rat_of_int q\<rfloor> = n"
    by (simp add: floor_divide_of_int_eq n_def)
  have "p = r + q * n" by (simp add: n_def r_def)
  then have "rat_of_int p = rat_of_int r + rat_of_int q * rat_of_int n"
    by (simp only: of_int_add of_int_mult)
  then have "rat_of_int p / of_int q = of_int r / of_int q + of_int n"
    using q by (simp add: add_divide_distrib)
  then have d: "rat_of_int p / of_int q - of_int n = of_int r / of_int q"
    by simp
  have "(rat_of_int r / of_int q < 1 / 2) = (rat_of_int r * 2 < of_int q)"
    using q by (simp add: pos_divide_less_eq)
  also have "\<dots> = (rat_of_int (2 * r) < of_int q)"
    by (simp add: mult.commute)
  also have "\<dots> = (2 * r < q)"
    by (rule of_int_less_iff)
  finally have 1: "(rat_of_int r / of_int q < 1 / 2) = (2 * r < q)" .
  have "(1 / 2 < rat_of_int r / of_int q) = (of_int q < rat_of_int r * 2)"
    using q by (simp add: pos_less_divide_eq)
  also have "\<dots> = (rat_of_int q < of_int (2 * r))"
    by (simp add: mult.commute)
  also have "\<dots> = (q < 2 * r)"
    by (rule of_int_less_iff)
  finally have 2: "(1 / 2 < rat_of_int r / of_int q) = (q < 2 * r)" .
  have "roundHalfEven (of_int p / of_int q) =
     (if 2 * r < q then n else if q < 2 * r then n + 1 else if even n then n else n + 1)"
    unfolding roundHalfEven_def Let_def f d 1 2 ..
  then show ?thesis
    unfolding n_def r_def .
qed

lemma roundHalfEven_numeral:
  "roundHalfEven (numeral a / numeral b) =
     (if 2 * (numeral a mod numeral b) < (numeral b :: int) then numeral a div numeral b
      else if numeral b < 2 * (numeral a mod numeral b :: int) then numeral a div numeral b + 1
      else if even (numeral a div numeral b :: int) then numeral a div numeral b
      else numeral a div numeral b + 1)"
  "roundHalfEven (numeral a) = numeral a"
  using roundHalfEven_fraction[of "numeral b" "numeral a"]
    roundHalfEven_fraction[of 1 "numeral a"]
  by simp_all

text \<open>The doubles met in the two calculations below.\<close>

lemma toDouble_7_10: "toDouble (7 / 10) = Fin (3152519739159347 / 4503599627370496)"
  by (subst toDouble_scaled_up[where n = 53]) (simp_all add: roundHalfEven_numeral)

lemma toDouble_3_10: "toDouble (3 / 10) = Fin (5404319552844595 / 18014398509481984)"
  by (subst toDouble_scaled_up[where n = 54]) (simp_all add: roundHalfEven_numeral)

lemma toDouble_21_100: "toDouble (21 / 100) = Fin (7566047373982433 / 36028797018963968)"
  by (subst toDouble_scaled_up[where n = 55]) (simp_all add: roundHalfEven_numeral)

lemma toDouble_4000: "toDouble 4000 = Fin 4000"
  by (subst toDouble_scaled_up[where n = 41]) (simp_all add: roundHalfEven_numeral)

lemma one_minus_fee_70:
  "toDouble (1351079888211149 / 4503599627370496) = Fin (1351079888211149 / 4503599627370496)"
  by (subst toDouble_scaled_up[where n = 54]) (simp_all add: roundHalfEven_numeral)

lemma divisor_70_30: "toDouble (1 / 18014398509481984) = Fin (1 / 18014398509481984)"
  by (subst toDouble_scaled_up[where n = 106]) (simp_all add: roundHalfEven_numeral)

lemma sell_70_30: "toDouble 72057594037927936000 = Fin 72057594037927936000"
  by (subst toDouble_scaled_down[where n = 13]) (simp_all add: roundHalfEven_numeral)

lemma one_minus_fee_21:
  "toDouble (28462749644981535 / 36028797018963968) = Fin (889460926405673 / 1125899906842624)"
  by (subst toDouble_scaled_up[where n = 53]) (simp_all add: roundHalfEven_numeral)

lemma divisor_21_30:
  "toDouble (8827055269646173 / 18014398509481984) = Fin (8827055269646173 / 18014398509481984)"
  by (subst toDouble_scaled_up[where n = 54]) (simp_all add: roundHalfEven_numeral)

lemma sell_21_30:
  "toDouble (72057594037927936000 / 8827055269646173) = Fin (1121950640587755 / 137438953472)"
  by (subst toDouble_scaled_up[where n = 40]) (simp_all add: roundHalfEven_numeral)

text \<open>
  C8, at the input where it fails: a fee of 70 percent and a target profit of 30 percent
  add up to 100, yet \<open>1 - 70/100 - 30/100\<close> is \<open>2\<close> to the power \<open>-54\<close> in double
  arithmetic, which is positive. No error is reported and the sell price is
  \<open>4000 * 2 ^ 54\<close>.
\<close>

theorem price_at_70_30:
  "error (computePrices \<lparr>costPrice = Fin 1000, shippingFee = Fin 3000, feePercent = Fin 70,
       targetProfitRate = Fin 30, exchangeRate = Fin 145, discountRate = Fin 22\<rparr>) = None
   \<and> sellPriceJPY (computePrices \<lparr>costPrice = Fin 1000, shippingFee = Fin 3000,
       feePercent = Fin 70, targetProfitRate = Fin 30, exchangeRate = Fin 145,
       discountRate = Fin 22\<rparr>) = Some (Fin 72057594037927936000)"
  by (simp add: computePrices_def Let_def js_div_def js_add_def js_sub_def js_le_def js_less_def
      toDouble_7_10 toDouble_3_10 toDouble_4000 one_minus_fee_70 divisor_70_30 sell_70_30)

text \<open>
  The example of the claim: for a fee of 21 and a target profit of 30 percent the sell
  price is within half a hundredth of 8163.27.
\<close>

lemma price_at_21_30:
  "error (computePrices \<lparr>costPrice = Fin 1000, shippingFee = Fin 3000, feePercent = Fin 21,
       targetProfitRate = Fin 30, exchangeRate = Fin 145, discountRate = Fin 22\<rparr>) = None
   \<and> sellPriceJPY (computePrices \<lparr>costPrice = Fin 1000, shippingFee = Fin 3000,
       feePercent = Fin 21, targetProfitRate = Fin 30, exchangeRate = Fin 145,
       discountRate = Fin 22\<rparr>) = Some (Fin (1121950640587755 / 137438953472))
   \<and> \<bar>1121950640587755 / 137438953472 - 816327 / 100\<bar> < (1 / 200 :: rat)"
  by (simp add: computePrices_def Let_def js_div_def js_add_def js_sub_def js_le_def js_less_def
      toDouble_21_100 toDouble_3_10 toDouble_4000 one_minus_fee_21 divisor_21_30 sell_21_30)

text \<open>What the guard does: whenever the computed divisor is not positive, no price is given.\<close>

lemma no_price_when_divisor_not_positive:
  assumes "js_le (js_sub (js_sub (Fin 1) (js_div (feePercent v) (Fin 100)))
                   (js_div (targetProfitRate v) (Fin 100))) (Fin 0)"
  shows "computePrices v =
     \<lparr>profit = None, sellPriceJPY = None, discountedPriceUSD = None,
      originalPriceUSD = None, error = Some ratesExceedMessage\<rparr>"
  using assms by (simp add: computePrices_def Let_def)

end
